theory Spec2Isabelle
  imports Complex_Main
begin

section \<open>Data model (src/utils/ingredientUtils.ts, interface Ingredient)\<close>

text \<open>
  An optional TypeScript string field (\<open>brand?: string\<close>) is a \<open>string option\<close>:
  \<open>None\<close> stands for \<open>undefined\<close>/\<open>null\<close>. The field \<open>id\<close> is named \<open>id'\<close> because
  \<open>id\<close> is the identity function of HOL.
\<close>

record Ingredient =
  id' :: string
  name :: string
  brand :: "string option"
  ripeness :: "string option"
  category :: "string option"
  location :: "string option"
  confection :: "string option"
  expiration :: "string option"
  lastRipenessUpdate :: "string option"
  isFrozen :: bool
  isOpened :: bool

text \<open>JavaScript truthiness of an optional string: \<open>undefined\<close>, \<open>null\<close> and \<open>''\<close> are falsy.\<close>

definition truthy :: "string option \<Rightarrow> bool" where
  "truthy s = (case s of None \<Rightarrow> False | Some x \<Rightarrow> x \<noteq> [])"

section \<open>Mutation API (src/utils/ingredientUtils.ts)\<close>

definition updateIngredient :: "Ingredient list \<Rightarrow> Ingredient \<Rightarrow> Ingredient list" where
  "updateIngredient ingredients updatedIngredient =
     map (\<lambda>item. if id' item = id' updatedIngredient then updatedIngredient else item) ingredients"

definition addIngredient :: "Ingredient list \<Rightarrow> Ingredient \<Rightarrow> Ingredient list" where
  "addIngredient ingredients newIngredient = ingredients @ [newIngredient]"

definition deleteIngredient :: "Ingredient list \<Rightarrow> string \<Rightarrow> Ingredient list" where
  "deleteIngredient ingredients i = filter (\<lambda>item. id' item \<noteq> i) ingredients"

section \<open>Time values and the calendar of ECMAScript Date objects\<close>

text \<open>
  A \<open>Date\<close> holds a time value: milliseconds since 1970-01-01T00:00Z, or NaN for an
  invalid date; here \<open>int option\<close> with \<open>None\<close> for NaN. The functions below are the
  abstract operations of the ECMAScript specification that the methods called in
  src/utils/dateUtils.ts are defined by.
\<close>

definition msPerDay :: int where
  "msPerDay = 86400000"

definition Day :: "int \<Rightarrow> int" where
  "Day t = t div msPerDay"

definition TimeWithinDay :: "int \<Rightarrow> int" where
  "TimeWithinDay t = t mod msPerDay"

definition DaysInYear :: "int \<Rightarrow> int" where
  "DaysInYear y =
     (if y mod 4 \<noteq> 0 then 365
      else if y mod 100 \<noteq> 0 then 366
      else if y mod 400 \<noteq> 0 then 365
      else 366)"

definition DayFromYear :: "int \<Rightarrow> int" where
  "DayFromYear y =
     365 * (y - 1970) + (y - 1969) div 4 - (y - 1901) div 100 + (y - 1601) div 400"

text \<open>
  \<open>YearFromTime t\<close> is the largest \<open>y\<close> with \<open>msPerDay * DayFromYear y \<le> t\<close>. It is
  computed from the mean year length (146097 days in 400 years), corrected by at most
  one year; \<open>YearFromDay_bounds\<close> and \<open>YearFromDay_unique\<close> below show that this is
  the year of the specification.
\<close>

definition YearFromDay :: "int \<Rightarrow> int" where
  "YearFromDay d =
     (let y0 = 1970 + (400 * d) div 146097
      in if d < DayFromYear y0 then y0 - 1
         else if DayFromYear (y0 + 1) \<le> d then y0 + 1
         else y0)"

definition YearFromTime :: "int \<Rightarrow> int" where
  "YearFromTime t = YearFromDay (Day t)"

definition InLeapYear :: "int \<Rightarrow> int" where
  "InLeapYear t = (if DaysInYear (YearFromTime t) = 366 then 1 else 0)"

definition DayWithinYear :: "int \<Rightarrow> int" where
  "DayWithinYear t = Day t - DayFromYear (YearFromTime t)"

text \<open>The number of days of a year before its month \<open>m\<close> (0 = January), \<open>l\<close> = 1 in a leap year.\<close>

definition DaysBeforeMonth :: "int \<Rightarrow> int \<Rightarrow> int" where
  "DaysBeforeMonth l m =
     (if m = 0 then 0
      else if m = 1 then 31
      else if m = 2 then 59 + l
      else if m = 3 then 90 + l
      else if m = 4 then 120 + l
      else if m = 5 then 151 + l
      else if m = 6 then 181 + l
      else if m = 7 then 212 + l
      else if m = 8 then 243 + l
      else if m = 9 then 273 + l
      else if m = 10 then 304 + l
      else if m = 11 then 334 + l
      else 365 + l)"

definition MonthFromTime :: "int \<Rightarrow> int" where
  "MonthFromTime t =
     (let d = DayWithinYear t; l = InLeapYear t
      in if d < 31 then 0
         else if d < 59 + l then 1
         else if d < 90 + l then 2
         else if d < 120 + l then 3
         else if d < 151 + l then 4
         else if d < 181 + l then 5
         else if d < 212 + l then 6
         else if d < 243 + l then 7
         else if d < 273 + l then 8
         else if d < 304 + l then 9
         else if d < 334 + l then 10
         else 11)"

definition DateFromTime :: "int \<Rightarrow> int" where
  "DateFromTime t =
     DayWithinYear t - DaysBeforeMonth (InLeapYear t) (MonthFromTime t) + 1"

definition HourFromTime :: "int \<Rightarrow> int" where
  "HourFromTime t = (t div 3600000) mod 24"

definition MinFromTime :: "int \<Rightarrow> int" where
  "MinFromTime t = (t div 60000) mod 60"

definition SecFromTime :: "int \<Rightarrow> int" where
  "SecFromTime t = (t div 1000) mod 60"

definition msFromTime :: "int \<Rightarrow> int" where
  "msFromTime t = t mod 1000"

definition MakeTime :: "int \<Rightarrow> int \<Rightarrow> int \<Rightarrow> int \<Rightarrow> int" where
  "MakeTime h m s ms = h * 3600000 + m * 60000 + s * 1000 + ms"

text \<open>
  \<open>MakeDay year month date\<close>: the month may lie outside 0..11 and the date outside the
  month; the year is carried and the date counted on from the first of the month, which
  is how \<open>setMonth\<close> and \<open>setDate\<close> overflow.
\<close>

definition MakeDay :: "int \<Rightarrow> int \<Rightarrow> int \<Rightarrow> int" where
  "MakeDay year month date =
     (let ym = year + month div 12; mn = month mod 12
      in DayFromYear ym + DaysBeforeMonth (if DaysInYear ym = 366 then 1 else 0) mn + date - 1)"

definition MakeDate :: "int \<Rightarrow> int \<Rightarrow> int" where
  "MakeDate day time = day * msPerDay + time"

definition DaysInMonth :: "int \<Rightarrow> int \<Rightarrow> int" where
  "DaysInMonth y m =
     (if m = 2 then (if DaysInYear y = 366 then 29 else 28)
      else if m = 4 \<or> m = 6 \<or> m = 9 \<or> m = 11 then 30
      else 31)"

section \<open>The environment: clock and time zone\<close>

text \<open>
  \<open>new Date()\<close> reads the clock and the local-time methods (\<open>setHours\<close>, \<open>getMonth\<close>,
  \<open>setMonth\<close>, \<open>getDate\<close>, \<open>setDate\<close>) read the time zone of the device. Both are
  parameters: \<open>now\<close> is the time value of the clock, and \<open>tza\<close> is the operation
  \<open>LocalTZA(t, isUTC)\<close> of the ECMAScript specification: the offset of local time from
  UTC in milliseconds that is in force at \<open>t\<close>, where \<open>t\<close> is a UTC time value when
  \<open>isUTC\<close> is true and a local time value otherwise. The offset may depend on \<open>t\<close>, as
  it does in a zone with daylight saving time.
\<close>

record env =
  now :: int
  tza :: "int \<Rightarrow> bool \<Rightarrow> int"

definition LocalTime :: "env \<Rightarrow> int \<Rightarrow> int" where
  "LocalTime e t = t + tza e t True"

definition UTC :: "env \<Rightarrow> int \<Rightarrow> int" where
  "UTC e t = t - tza e t False"

section \<open>Date objects\<close>

text \<open>
  JavaScript numbers as far as the code produces them: a finite integer, \<open>Infinity\<close>
  (returned for a missing date) and \<open>NaN\<close> (the time value of an invalid date, which
  every arithmetic operation and \<open>Math.ceil\<close> pass on and every comparison rejects).
  All finite values here are integers far below \<open>2^53\<close>, where doubles are exact.
\<close>

datatype jsnumber = Finite int | Infinity | NaN

fun js_sub :: "jsnumber \<Rightarrow> jsnumber \<Rightarrow> jsnumber" where
  "js_sub (Finite a) (Finite b) = Finite (a - b)"
| "js_sub NaN _ = NaN"
| "js_sub _ NaN = NaN"
| "js_sub Infinity Infinity = NaN"
| "js_sub Infinity (Finite _) = Infinity"
| "js_sub (Finite _) Infinity = NaN"

text \<open>\<open>Math.ceil(x / msPerDay)\<close>: the least integer not below the quotient.\<close>

fun ceil_days :: "jsnumber \<Rightarrow> jsnumber" where
  "ceil_days (Finite a) = Finite (- ((- a) div msPerDay))"
| "ceil_days Infinity = Infinity"
| "ceil_days NaN = NaN"

fun js_le :: "jsnumber \<Rightarrow> jsnumber \<Rightarrow> bool" where
  "js_le (Finite a) (Finite b) = (a \<le> b)"
| "js_le NaN _ = False"
| "js_le _ NaN = False"
| "js_le (Finite _) Infinity = True"
| "js_le Infinity Infinity = True"
| "js_le Infinity (Finite _) = False"

definition js_ge :: "jsnumber \<Rightarrow> jsnumber \<Rightarrow> bool" where
  "js_ge a b = js_le b a"

fun js_gt :: "jsnumber \<Rightarrow> jsnumber \<Rightarrow> bool" where
  "js_gt (Finite a) (Finite b) = (a > b)"
| "js_gt NaN _ = False"
| "js_gt _ NaN = False"
| "js_gt Infinity (Finite _) = True"
| "js_gt Infinity Infinity = False"
| "js_gt (Finite _) Infinity = False"

text \<open>A \<open>Date\<close> object is its time value; \<open>None\<close> is the invalid date.\<close>

type_synonym Date = "int option"

definition getTime :: "Date \<Rightarrow> jsnumber" where
  "getTime d = (case d of None \<Rightarrow> NaN | Some t \<Rightarrow> Finite t)"

text \<open>\<open>d.setHours(0, 0, 0, 0)\<close>: midnight of the local day of \<open>d\<close>.\<close>

definition setHours0 :: "env \<Rightarrow> Date \<Rightarrow> Date" where
  "setHours0 e d =
     (case d of None \<Rightarrow> None
      | Some t \<Rightarrow> Some (UTC e (MakeDate (Day (LocalTime e t)) (MakeTime 0 0 0 0))))"

definition getMonth :: "env \<Rightarrow> Date \<Rightarrow> int option" where
  "getMonth e d = (case d of None \<Rightarrow> None | Some t \<Rightarrow> Some (MonthFromTime (LocalTime e t)))"

definition getDate :: "env \<Rightarrow> Date \<Rightarrow> int option" where
  "getDate e d = (case d of None \<Rightarrow> None | Some t \<Rightarrow> Some (DateFromTime (LocalTime e t)))"

text \<open>\<open>d.setMonth(m)\<close> and \<open>d.setDate(dt)\<close>; the argument is \<open>None\<close> when it is NaN.\<close>

definition setMonth :: "env \<Rightarrow> Date \<Rightarrow> int option \<Rightarrow> Date" where
  "setMonth e d m =
     (case d of None \<Rightarrow> None
      | Some t \<Rightarrow>
          (case m of None \<Rightarrow> None
           | Some mo \<Rightarrow>
               (let lt = LocalTime e t
                in Some (UTC e (MakeDate (MakeDay (YearFromTime lt) mo (DateFromTime lt))
                                         (TimeWithinDay lt))))))"

definition setDate :: "env \<Rightarrow> Date \<Rightarrow> int option \<Rightarrow> Date" where
  "setDate e d dt =
     (case d of None \<Rightarrow> None
      | Some t \<Rightarrow>
          (case dt of None \<Rightarrow> None
           | Some dt' \<Rightarrow>
               (let lt = LocalTime e t
                in Some (UTC e (MakeDate (MakeDay (YearFromTime lt) (MonthFromTime lt) dt')
                                         (TimeWithinDay lt))))))"

subsection \<open>Parsing and printing ISO strings\<close>

text \<open>The decimal digits; \<open>digit c\<close> is \<open>None\<close> for every other character.\<close>

definition digit :: "char \<Rightarrow> int option" where
  "digit c = map_of (zip ''0123456789'' [0, 1, 2, 3, 4, 5, 6, 7, 8, 9]) c"

fun number :: "int \<Rightarrow> string \<Rightarrow> int option" where
  "number acc [] = Some acc"
| "number acc (c # cs) = (case digit c of None \<Rightarrow> None | Some v \<Rightarrow> number (10 * acc + v) cs)"

text \<open>The last decimal digit of \<open>n\<close>, as a character.\<close>

definition digit_char :: "int \<Rightarrow> char" where
  "digit_char n = ''0123456789'' ! nat (n mod 10)"

definition pad2 :: "int \<Rightarrow> string" where
  "pad2 n = [digit_char (n div 10), digit_char n]"

definition pad3 :: "int \<Rightarrow> string" where
  "pad3 n = digit_char (n div 100) # pad2 n"

definition pad4 :: "int \<Rightarrow> string" where
  "pad4 n = digit_char (n div 1000) # pad3 n"

definition pad6 :: "int \<Rightarrow> string" where
  "pad6 n = digit_char (n div 100000) # digit_char (n div 10000) # pad4 n"

text \<open>
  The date part \<open>YYYY-MM-DD\<close> of the ECMAScript date-time string format, as a day
  number. A day that the month does not have makes the string invalid.
\<close>

definition parse_date_part :: "string \<Rightarrow> int option" where
  "parse_date_part s =
     (if length s = 10 \<and> s ! 4 = CHR ''-'' \<and> s ! 7 = CHR ''-'' then
        (case number 0 (take 4 s) of None \<Rightarrow> None
         | Some y \<Rightarrow>
            (case number 0 (take 2 (drop 5 s)) of None \<Rightarrow> None
             | Some m \<Rightarrow>
                (case number 0 (drop 8 s) of None \<Rightarrow> None
                 | Some d \<Rightarrow>
                    if 1 \<le> m \<and> m \<le> 12 \<and> 1 \<le> d \<and> d \<le> DaysInMonth y m
                    then Some (MakeDay y (m - 1) d) else None)))
      else None)"

text \<open>The time part \<open>THH:mm:ss.sssZ\<close>, as milliseconds within the day.\<close>

definition parse_time_part :: "string \<Rightarrow> int option" where
  "parse_time_part s =
     (if length s = 14 \<and> s ! 0 = CHR ''T'' \<and> s ! 3 = CHR '':'' \<and> s ! 6 = CHR '':''
         \<and> s ! 9 = CHR ''.'' \<and> s ! 13 = CHR ''Z'' then
        (case number 0 (take 2 (drop 1 s)) of None \<Rightarrow> None
         | Some h \<Rightarrow>
            (case number 0 (take 2 (drop 4 s)) of None \<Rightarrow> None
             | Some m \<Rightarrow>
                (case number 0 (take 2 (drop 7 s)) of None \<Rightarrow> None
                 | Some sec \<Rightarrow>
                    (case number 0 (take 3 (drop 10 s)) of None \<Rightarrow> None
                     | Some ms \<Rightarrow>
                        if (h \<le> 23 \<and> m \<le> 59 \<and> sec \<le> 59) \<or> (h = 24 \<and> m = 0 \<and> sec = 0 \<and> ms = 0)
                        then Some (MakeTime h m sec ms) else None))))
      else None)"

text \<open>
  \<open>new Date(s)\<close> for the two forms of string the application stores: the date-only
  form \<open>YYYY-MM-DD\<close> (the expiration; read as midnight UTC) and the form
  \<open>YYYY-MM-DDTHH:mm:ss.sssZ\<close> that \<open>toISOString\<close> prints (the ripeness timestamp).
  Every other string is the invalid date here; the theorems below that speak of a
  parsed date assume one of these forms.
\<close>

definition Date_parse :: "string \<Rightarrow> Date" where
  "Date_parse s =
     (if length s = 10 then
        (case parse_date_part s of None \<Rightarrow> None | Some d \<Rightarrow> Some (MakeDate d 0))
      else if length s = 24 then
        (case parse_date_part (take 10 s) of None \<Rightarrow> None
         | Some d \<Rightarrow>
            (case parse_time_part (drop 10 s) of None \<Rightarrow> None
             | Some tm \<Rightarrow> Some (MakeDate d tm)))
      else None)"

datatype jserror = RangeError

definition year_string :: "int \<Rightarrow> string" where
  "year_string y =
     (if 0 \<le> y \<and> y \<le> 9999 then pad4 y
      else if y < 0 then CHR ''-'' # pad6 (- y)
      else CHR ''+'' # pad6 y)"

definition iso_date :: "int \<Rightarrow> int \<Rightarrow> int \<Rightarrow> string" where
  "iso_date y m d = year_string y @ ''-'' @ pad2 m @ ''-'' @ pad2 d"

text \<open>\<open>d.toISOString()\<close>: the UTC fields of the time value; throws for the invalid date.\<close>

definition toISOString :: "Date \<Rightarrow> jserror + string" where
  "toISOString d =
     (case d of None \<Rightarrow> Inl RangeError
      | Some t \<Rightarrow>
          Inr (iso_date (YearFromTime t) (MonthFromTime t + 1) (DateFromTime t)
               @ ''T'' @ pad2 (HourFromTime t) @ '':'' @ pad2 (MinFromTime t) @ '':''
               @ pad2 (SecFromTime t) @ ''.'' @ pad3 (msFromTime t) @ ''Z''))"

text \<open>\<open>s.split('T')[0]\<close>: the part of \<open>s\<close> before its first \<open>T\<close>.\<close>

definition split_T_0 :: "string \<Rightarrow> string" where
  "split_T_0 s = takeWhile (\<lambda>c. c \<noteq> CHR ''T'') s"

section \<open>src/utils/dateUtils.ts\<close>

text \<open>
  \<open>!expirationDate\<close> holds for a missing date and for the empty string.
\<close>

definition getDaysUntilExpiration :: "env \<Rightarrow> string option \<Rightarrow> jsnumber" where
  "getDaysUntilExpiration e expirationDate =
     (case expirationDate of
        None \<Rightarrow> Infinity
      | Some s \<Rightarrow>
          if s = [] then Infinity
          else
            let today = Some (now e);
                expDate = Date_parse s;
                today' = setHours0 e today;
                expDate' = setHours0 e expDate;
                diffTime = js_sub (getTime expDate') (getTime today')
            in ceil_days diffTime)"

definition isExpiringSoon :: "env \<Rightarrow> string option \<Rightarrow> int \<Rightarrow> bool" where
  "isExpiringSoon e expirationDate daysThreshold =
     (if \<not> truthy expirationDate then False
      else
        let daysUntil = getDaysUntilExpiration e expirationDate
        in js_ge daysUntil (Finite 0) \<and> js_le daysUntil (Finite daysThreshold))"

definition adjustExpirationForFrozen :: "env \<Rightarrow> string \<Rightarrow> bool \<Rightarrow> jserror + string" where
  "adjustExpirationForFrozen e expirationDate isFrozen' =
     (if expirationDate = [] then Inr []
      else
        let expDate = Date_parse expirationDate;
            expDate' = (if isFrozen'
                        then setMonth e expDate (map_option (\<lambda>m. m + 6) (getMonth e expDate))
                        else expDate)
        in map_sum id split_T_0 (toISOString expDate'))"

definition adjustExpirationForOpened :: "env \<Rightarrow> string \<Rightarrow> bool \<Rightarrow> jserror + string" where
  "adjustExpirationForOpened e expirationDate isOpened' =
     (if expirationDate = [] then Inr []
      else
        let expDate = Date_parse expirationDate;
            expDate' = (if isOpened'
                        then setDate e expDate (map_option (\<lambda>d. d - 7) (getDate e expDate))
                        else expDate)
        in map_sum id split_T_0 (toISOString expDate'))"

text \<open>
  The second parameter has the default value 3 (\<open>daysThreshold = 3\<close>); \<open>None\<close> is
  the call that leaves it out.
\<close>

definition needsRipenessCheck :: "env \<Rightarrow> string option \<Rightarrow> int option \<Rightarrow> bool" where
  "needsRipenessCheck e lastRipenessUpdate' daysThreshold' =
     (let daysThreshold = (case daysThreshold' of None \<Rightarrow> 3 | Some n \<Rightarrow> n)
      in case lastRipenessUpdate' of
           None \<Rightarrow> False
         | Some s \<Rightarrow>
             if s = [] then False
             else
               let lastUpdate = Date_parse s;
                   today = Some (now e);
                   today' = setHours0 e today;
                   lastUpdate' = setHours0 e lastUpdate;
                   diffTime = js_sub (getTime today') (getTime lastUpdate');
                   diffDays = ceil_days diffTime
               in js_gt diffDays (Finite daysThreshold))"

definition DEFAULT_EXPIRING_DAYS_THRESHOLD :: int where
  "DEFAULT_EXPIRING_DAYS_THRESHOLD = 7"

definition DEFAULT_RIPENESS_CHECK_DAYS :: int where
  "DEFAULT_RIPENESS_CHECK_DAYS = 3"

section \<open>Derived views (src/utils/ingredientUtils.ts)\<close>

definition getExpiringSoonIngredients :: "env \<Rightarrow> Ingredient list \<Rightarrow> int \<Rightarrow> Ingredient list" where
  "getExpiringSoonIngredients e ingredients daysThreshold =
     filter (\<lambda>item.
        let isRelevant = (ripeness item = Some ''Ripe/Mature'' \<or> isOpened item);
            isNotFrozen = (\<not> isFrozen item \<or> isExpiringSoon e (expiration item) daysThreshold);
            isExpiring = (truthy (expiration item) \<and> isExpiringSoon e (expiration item) daysThreshold)
        in isRelevant \<or> (isExpiring \<and> isNotFrozen)) ingredients"

definition getIngredientsNeedingRipenessCheck ::
  "env \<Rightarrow> Ingredient list \<Rightarrow> int option \<Rightarrow> Ingredient list" where
  "getIngredientsNeedingRipenessCheck e ingredients daysThreshold' =
     (let daysThreshold = (case daysThreshold' of None \<Rightarrow> 3 | Some n \<Rightarrow> n)
      in filter (\<lambda>item. needsRipenessCheck e (lastRipenessUpdate item) (Some daysThreshold))
           ingredients)"

section \<open>Ingredient store (src/utils/storageUtils.ts)\<close>

text \<open>
  \<open>AsyncStorage\<close> is the key-value store of the device: a map from keys to strings
  whose operations may reject. \<open>rejecting\<close> says whether the store rejects the operation
  it is asked for; what the store holds is unchanged by a rejected operation.
\<close>

datatype storage_error = StorageFailure

record AsyncStorage =
  items :: "string \<rightharpoonup> string"
  rejecting :: bool

definition getItem :: "AsyncStorage \<Rightarrow> string \<Rightarrow> storage_error + string option" where
  "getItem st k = (if rejecting st then Inl StorageFailure else Inr (items st k))"

definition setItem :: "AsyncStorage \<Rightarrow> string \<Rightarrow> string \<Rightarrow> storage_error + AsyncStorage" where
  "setItem st k v =
     (if rejecting st then Inl StorageFailure else Inr (st\<lparr>items := (items st)(k \<mapsto> v)\<rparr>))"

definition removeItem :: "AsyncStorage \<Rightarrow> string \<Rightarrow> storage_error + AsyncStorage" where
  "removeItem st k =
     (if rejecting st then Inl StorageFailure else Inr (st\<lparr>items := (items st)(k := None)\<rparr>))"

definition INGREDIENTS_STORAGE_KEY :: string where
  "INGREDIENTS_STORAGE_KEY = ''ingredients_data''"

text \<open>
  \<open>JSON.parse\<close> and \<open>JSON.stringify\<close> are parameters: \<open>JSON_parse s\<close> is \<open>None\<close> when
  parsing throws. Every throw inside \<open>try\<close> reaches the \<open>catch\<close> branch, and
  \<open>if (storedIngredients)\<close> fails for a missing value and for the empty string.
\<close>

definition loadIngredients ::
  "(string \<Rightarrow> Ingredient list option) \<Rightarrow> AsyncStorage \<Rightarrow> Ingredient list" where
  "loadIngredients JSON_parse st =
     (case getItem st INGREDIENTS_STORAGE_KEY of
        Inl error \<Rightarrow> []
      | Inr None \<Rightarrow> []
      | Inr (Some storedIngredients) \<Rightarrow>
          if storedIngredients = [] then []
          else (case JSON_parse storedIngredients of None \<Rightarrow> [] | Some parsed \<Rightarrow> parsed))"

definition saveIngredients ::
  "(Ingredient list \<Rightarrow> string) \<Rightarrow> AsyncStorage \<Rightarrow> Ingredient list \<Rightarrow> bool \<times> AsyncStorage" where
  "saveIngredients JSON_stringify st ingredients =
     (case setItem st INGREDIENTS_STORAGE_KEY (JSON_stringify ingredients) of
        Inl error \<Rightarrow> (False, st)
      | Inr st' \<Rightarrow> (True, st'))"

definition clearAllIngredients :: "AsyncStorage \<Rightarrow> bool \<times> AsyncStorage" where
  "clearAllIngredients st =
     (case removeItem st INGREDIENTS_STORAGE_KEY of
        Inl error \<Rightarrow> (False, st)
      | Inr st' \<Rightarrow> (True, st'))"

section \<open>Notions used to state the properties\<close>

text \<open>The local calendar day (as a day number) on which the time value \<open>t\<close> falls.\<close>

definition localDay :: "env \<Rightarrow> int \<Rightarrow> int" where
  "localDay e t = Day (LocalTime e t)"

text \<open>The local midnight that \<open>setHours(0, 0, 0, 0)\<close> moves the time value \<open>t\<close> to.\<close>

definition midnight :: "env \<Rightarrow> int \<Rightarrow> int" where
  "midnight e t = UTC e (MakeDate (Day (LocalTime e t)) (MakeTime 0 0 0 0))"

text \<open>The date-only ISO string of the day with number \<open>k\<close>.\<close>

definition day_string :: "int \<Rightarrow> string" where
  "day_string k =
     iso_date (YearFromTime (MakeDate k 0)) (MonthFromTime (MakeDate k 0) + 1)
       (DateFromTime (MakeDate k 0))"

section \<open>Example data\<close>

text \<open>Three records used to instantiate the theorems below.\<close>

definition apple :: Ingredient where
  "apple = \<lparr>id' = ''1700000000001'', name = ''Apple'', brand = Some [], ripeness = Some ''Ripe/Mature'',
     category = Some ''Fruit'', location = Some ''Counter'', confection = Some ''Fresh'',
     expiration = Some [], lastRipenessUpdate = Some ''2024-01-11T09:30:00.000Z'',
     isFrozen = False, isOpened = False\<rparr>"

definition milk :: Ingredient where
  "milk = \<lparr>id' = ''1700000000002'', name = ''Milk'', brand = Some ''Acme'', ripeness = Some [],
     category = Some ''Dairy'', location = Some ''Fridge'', confection = Some ''Fresh'',
     expiration = Some ''2024-01-25'', lastRipenessUpdate = None,
     isFrozen = False, isOpened = False\<rparr>"

definition peas :: Ingredient where
  "peas = \<lparr>id' = ''1700000000003'', name = ''Peas'', brand = None, ripeness = None,
     category = Some ''Vegetable'', location = Some ''Freezer'', confection = Some ''Frozen'',
     expiration = Some ''2024-01-18'', lastRipenessUpdate = Some ''2024-01-13T09:30:00.000Z'',
     isFrozen = True, isOpened = False\<rparr>"

text \<open>
  Two environments with the clock at 2024-01-15T15:00:00Z: a device on UTC, and a device
  five hours west of UTC (where it is 10:00 on 15 January).
\<close>

definition winter_utc :: env where
  "winter_utc = \<lparr>now = 1705330800000, tza = (\<lambda>t isUTC. 0)\<rparr>"

definition winter_bogota :: env where
  "winter_bogota = \<lparr>now = 1705330800000, tza = (\<lambda>t isUTC. - 18000000)\<rparr>"

text \<open>
  The zone Europe/Berlin under the rule of the European Union: one hour east of UTC, and
  two hours from 01:00 UTC on the last Sunday of March to 01:00 UTC on the last Sunday
  of October. Day \<open>d\<close> is a Sunday when \<open>(d + 4) mod 7 = 0\<close>. A local time that the
  change skips or repeats is read with the offset in force before the change.
\<close>

definition lastSunday :: "int \<Rightarrow> int \<Rightarrow> int" where
  "lastSunday y m = (let d = MakeDay y m 31 in d - (d + 4) mod 7)"

definition europe_berlin :: "int \<Rightarrow> bool \<Rightarrow> int" where
  "europe_berlin t isUTC =
     (let y = YearFromTime t;
          start = MakeDate (lastSunday y 2) (MakeTime 1 0 0 0);
          finish = MakeDate (lastSunday y 9) (MakeTime 1 0 0 0);
          u = (if isUTC then t else t - 7200000)
      in if start \<le> u \<and> u < finish then 7200000 else 3600000)"

text \<open>
  Two devices in that zone: one with the clock at 2024-04-02T12:00:00Z, two days after
  the clocks went forward, and one with the clock at 2024-10-25T12:00:00Z, two days
  before they go back.
\<close>

definition spring_berlin :: env where
  "spring_berlin = \<lparr>now = 1712059200000, tza = europe_berlin\<rparr>"

definition autumn_berlin :: env where
  "autumn_berlin = \<lparr>now = 1729857600000, tza = europe_berlin\<rparr>"

text \<open>Two records that expire 10 and 3 days after 25 October 2024.\<close>

definition autumn_milk :: Ingredient where
  "autumn_milk = milk\<lparr>expiration := Some ''2024-11-04''\<rparr>"

definition autumn_peas :: Ingredient where
  "autumn_peas = peas\<lparr>expiration := Some ''2024-10-28''\<rparr>"

text \<open>A store that holds a value under the ingredients key.\<close>

definition stored :: AsyncStorage where
  "stored = \<lparr>items = [''ingredients_data'' \<mapsto> ''[]''], rejecting = False\<rparr>"

section \<open>The calendar: years, months and days\<close>

lemma div_bounds:
  fixes x k :: int
  assumes "0 < k"
  shows "k * (x div k) \<le> x" and "x < k * (x div k) + k"
proof -
  have "x = k * (x div k) + x mod k" by simp
  moreover have "0 \<le> x mod k" "x mod k < k" using assms by simp_all
  ultimately show "k * (x div k) \<le> x" and "x < k * (x div k) + k" by linarith+
qed

lemma year_estimate_lower:
  fixes y d a b c q :: int
  assumes "4 * a \<le> y - 1969" "y - 1969 < 4 * a + 4"
    and "100 * b \<le> y - 1901" "y - 1901 < 100 * b + 100"
    and "400 * c \<le> y - 1601" "y - 1601 < 400 * c + 400"
    and "146097 * q \<le> 400 * d" "400 * d < 146097 * q + 146097"
    and "365 * y - 719050 + a - b + c \<le> d"
  shows "y - 1 \<le> 1970 + q"
proof -
  have "146097 * y - 287811596 \<le> 400 * d" using assms(2,3,6,9) by linarith
  then show ?thesis using assms(8) by linarith
qed

lemma year_estimate_upper:
  fixes y d a b c q :: int
  assumes "4 * a \<le> y - 1969" "y - 1969 < 4 * a + 4"
    and "100 * b \<le> y - 1901" "y - 1901 < 100 * b + 100"
    and "400 * c \<le> y - 1601" "y - 1601 < 400 * c + 400"
    and "146097 * q \<le> 400 * d" "400 * d < 146097 * q + 146097"
    and "d < 365 * y - 719050 + a - b + c"
  shows "1970 + q \<le> y"
proof -
  have "400 * d < 146097 * y - 287810501" using assms(1,4,5,9) by linarith
  then show ?thesis using assms(7) by linarith
qed

lemma DayFromYear_lower:
  assumes "DayFromYear y \<le> d"
  shows "y - 1 \<le> 1970 + (400 * d) div 146097"
proof -
  define a where "a = (y - 1969) div 4"
  define b where "b = (y - 1901) div 100"
  define c where "c = (y - 1601) div 400"
  define q where "q = (400 * d) div 146097"
  have A: "4 * a \<le> y - 1969" "y - 1969 < 4 * a + 4"
    unfolding a_def by (rule div_bounds, simp)+
  have B: "100 * b \<le> y - 1901" "y - 1901 < 100 * b + 100"
    unfolding b_def by (rule div_bounds, simp)+
  have C: "400 * c \<le> y - 1601" "y - 1601 < 400 * c + 400"
    unfolding c_def by (rule div_bounds, simp)+
  have Q: "146097 * q \<le> 400 * d" "400 * d < 146097 * q + 146097"
    unfolding q_def by (rule div_bounds, simp)+
  have D: "365 * y - 719050 + a - b + c \<le> d"
    using assms by (simp add: DayFromYear_def a_def b_def c_def)
  show ?thesis using year_estimate_lower[OF A B C Q D] by (simp only: q_def)
qed

lemma DayFromYear_upper:
  assumes "d < DayFromYear y"
  shows "1970 + (400 * d) div 146097 \<le> y"
proof -
  define a where "a = (y - 1969) div 4"
  define b where "b = (y - 1901) div 100"
  define c where "c = (y - 1601) div 400"
  define q where "q = (400 * d) div 146097"
  have A: "4 * a \<le> y - 1969" "y - 1969 < 4 * a + 4"
    unfolding a_def by (rule div_bounds, simp)+
  have B: "100 * b \<le> y - 1901" "y - 1901 < 100 * b + 100"
    unfolding b_def by (rule div_bounds, simp)+
  have C: "400 * c \<le> y - 1601" "y - 1601 < 400 * c + 400"
    unfolding c_def by (rule div_bounds, simp)+
  have Q: "146097 * q \<le> 400 * d" "400 * d < 146097 * q + 146097"
    unfolding q_def by (rule div_bounds, simp)+
  have D: "d < 365 * y - 719050 + a - b + c"
    using assms by (simp add: DayFromYear_def a_def b_def c_def)
  show ?thesis using year_estimate_upper[OF A B C Q D] by (simp only: q_def)
qed

lemma div_step:
  fixes x k :: int
  assumes "0 < k"
  shows "(x + 1) div k = x div k + (if (x + 1) mod k = 0 then 1 else 0)"
proof -
  define q where "q = x div k"
  define r where "r = x mod k"
  have x: "x = k * q + r" and r: "0 \<le> r" "r < k"
    using assms by (simp_all add: q_def r_def)
  show ?thesis
  proof (cases "r + 1 < k")
    case True
    have e: "x + 1 = k * q + (r + 1)" using x by simp
    have "(x + 1) div k = q" using int_div_pos_eq[OF e] r True by simp
    moreover have "(x + 1) mod k = r + 1" using int_mod_pos_eq[OF e] r True by simp
    ultimately show ?thesis using r by (simp add: q_def)
  next
    case False
    then have rk: "r + 1 = k" using r by simp
    have e: "x + 1 = k * (q + 1) + 0" using x rk by (simp add: algebra_simps)
    have "(x + 1) div k = q + 1" using int_div_pos_eq[OF e] assms by simp
    moreover have "(x + 1) mod k = 0" using int_mod_pos_eq[OF e] assms by simp
    ultimately show ?thesis by (simp add: q_def)
  qed
qed

lemma mod_sub_mult: "((y::int) - k * c) mod k = y mod k"
  using mod_mult_self2[of y k "- c"] by simp

lemma DayFromYear_Suc: "DayFromYear (y + 1) = DayFromYear y + DaysInYear y"
proof -
  have a: "(y + 1 - 1969) div 4 = (y - 1969) div 4 + (if y mod 4 = 0 then 1 else 0)"
    using div_step[of 4 "y - 1969"] mod_sub_mult[of y 4 492] by simp
  have b: "(y + 1 - 1901) div 100 = (y - 1901) div 100 + (if y mod 100 = 0 then 1 else 0)"
    using div_step[of 100 "y - 1901"] mod_sub_mult[of y 100 19] by simp
  have c: "(y + 1 - 1601) div 400 = (y - 1601) div 400 + (if y mod 400 = 0 then 1 else 0)"
    using div_step[of 400 "y - 1601"] mod_sub_mult[of y 400 4] by simp
  have d4: "y mod 100 = 0 \<Longrightarrow> y mod 4 = 0"
    using mod_mod_cancel[of 4 100 y] by simp
  have d100: "y mod 400 = 0 \<Longrightarrow> y mod 100 = 0"
    using mod_mod_cancel[of 100 400 y] by simp
  show ?thesis
    unfolding DayFromYear_def DaysInYear_def a b c using d4 d100 by auto
qed

lemma DaysInYear_bounds: "365 \<le> DaysInYear y" "DaysInYear y \<le> 366"
  by (simp_all add: DaysInYear_def)

lemma YearFromDay_unique:
  assumes "DayFromYear y \<le> d" and "d < DayFromYear (y + 1)"
  shows "YearFromDay d = y"
proof -
  define y0 where "y0 = 1970 + (400 * d) div 146097"
  have lo: "y - 1 \<le> y0" unfolding y0_def by (rule DayFromYear_lower[OF assms(1)])
  have hi: "y0 \<le> y + 1" unfolding y0_def by (rule DayFromYear_upper[OF assms(2)])
  have mono: "DayFromYear z < DayFromYear (z + 1)" for z
    using DayFromYear_Suc[of z] DaysInYear_bounds(1)[of z] by simp
  consider "y0 = y - 1" | "y0 = y" | "y0 = y + 1" using lo hi by linarith
  then have "(if d < DayFromYear y0 then y0 - 1
              else if DayFromYear (y0 + 1) \<le> d then y0 + 1 else y0) = y"
  proof cases
    case 1
    then have "DayFromYear (y0 + 1) \<le> d" using assms(1) by simp
    moreover have "DayFromYear y0 < DayFromYear (y0 + 1)" by (rule mono)
    ultimately show ?thesis using 1 by simp
  next
    case 2
    then show ?thesis using assms by simp
  next
    case 3
    then show ?thesis using assms by simp
  qed
  then show ?thesis unfolding YearFromDay_def Let_def y0_def .
qed

lemma Day_bounds: "msPerDay * Day t \<le> t" "t < msPerDay * Day t + msPerDay"
  unfolding Day_def by (rule div_bounds, simp add: msPerDay_def)+

lemma YearFromTime_unique:
  assumes "msPerDay * DayFromYear y \<le> t" and "t < msPerDay * DayFromYear (y + 1)"
  shows "YearFromTime t = y"
proof -
  have "DayFromYear y \<le> Day t"
    using assms(1) Day_bounds(2)[of t] unfolding msPerDay_def by linarith
  moreover have "Day t < DayFromYear (y + 1)"
    using assms(2) Day_bounds(1)[of t] unfolding msPerDay_def by linarith
  ultimately show ?thesis unfolding YearFromTime_def by (rule YearFromDay_unique)
qed

lemma YearFromDay_bounds:
  "DayFromYear (YearFromDay d) \<le> d" "d < DayFromYear (YearFromDay d + 1)"
proof -
  define y0 where "y0 = 1970 + (400 * d) div 146097"
  have lo: "DayFromYear (y0 - 1) \<le> d"
  proof (rule ccontr)
    assume "\<not> DayFromYear (y0 - 1) \<le> d"
    then have "1970 + (400 * d) div 146097 \<le> y0 - 1"
      using DayFromYear_upper[of d "y0 - 1"] by simp
    then show False by (simp add: y0_def)
  qed
  have hi: "d < DayFromYear (y0 + 1 + 1)"
  proof (rule ccontr)
    assume "\<not> d < DayFromYear (y0 + 1 + 1)"
    then have "y0 + 1 + 1 - 1 \<le> 1970 + (400 * d) div 146097"
      using DayFromYear_lower[of "y0 + 1 + 1" d] by simp
    then show False by (simp add: y0_def)
  qed
  have Y: "YearFromDay d =
    (if d < DayFromYear y0 then y0 - 1 else if DayFromYear (y0 + 1) \<le> d then y0 + 1 else y0)"
    unfolding YearFromDay_def Let_def y0_def ..
  show "DayFromYear (YearFromDay d) \<le> d" unfolding Y using lo by simp
  show "d < DayFromYear (YearFromDay d + 1)" unfolding Y using hi by simp
qed

lemma MakeDay_in_year:
  assumes "0 \<le> m" "m \<le> 11"
  shows "MakeDay y m dt =
    DayFromYear y + DaysBeforeMonth (if DaysInYear y = 366 then 1 else 0) m + dt - 1"
  using assms by (simp add: MakeDay_def Let_def)

lemma month_disj:
  fixes m :: int
  assumes "0 \<le> m" "m \<le> 11"
  shows "m = 0 \<or> m = 1 \<or> m = 2 \<or> m = 3 \<or> m = 4 \<or> m = 5
      \<or> m = 6 \<or> m = 7 \<or> m = 8 \<or> m = 9 \<or> m = 10 \<or> m = 11"
  using assms by arith

lemma DaysBeforeMonth_facts:
  assumes m: "0 \<le> m" "m \<le> 11" and l: "l = (if DaysInYear y = 366 then 1 else 0)"
  shows "0 \<le> DaysBeforeMonth l m"
    and "DaysBeforeMonth l (m + 1) = DaysBeforeMonth l m + DaysInMonth y (m + 1)"
    and "DaysBeforeMonth l (m + 1) \<le> DaysInYear y"
proof -
  have diy: "DaysInYear y = 365 + l"
    using DaysInYear_bounds[of y] by (simp add: l DaysInYear_def)
  note month_disj[OF m]
  then show "0 \<le> DaysBeforeMonth l m"
    by (elim disjE) (simp_all add: DaysBeforeMonth_def l)
  note month_disj[OF m]
  then show "DaysBeforeMonth l (m + 1) = DaysBeforeMonth l m + DaysInMonth y (m + 1)"
    by (elim disjE) (simp_all add: DaysBeforeMonth_def DaysInMonth_def l)
  note month_disj[OF m]
  then show "DaysBeforeMonth l (m + 1) \<le> DaysInYear y"
    unfolding diy by (elim disjE) (simp_all add: DaysBeforeMonth_def l)
qed

lemma MonthFromTime_unique:
  assumes m: "0 \<le> m" "m \<le> 11"
    and l: "InLeapYear t = l" "l = 0 \<or> l = 1"
    and d: "DaysBeforeMonth l m \<le> DayWithinYear t" "DayWithinYear t < DaysBeforeMonth l (m + 1)"
  shows "MonthFromTime t = m"
  using l(2)
proof
  assume "l = 0"
  note c = month_disj[OF m]
  from c d show ?thesis unfolding MonthFromTime_def Let_def l(1) \<open>l = 0\<close>
    by (elim disjE) (simp_all add: DaysBeforeMonth_def)
next
  assume "l = 1"
  note c = month_disj[OF m]
  from c d show ?thesis unfolding MonthFromTime_def Let_def l(1) \<open>l = 1\<close>
    by (elim disjE) (simp_all add: DaysBeforeMonth_def)
qed

lemma civil_of_MakeDay:
  assumes m: "0 \<le> m" "m \<le> 11"
    and dt: "1 \<le> dt" "dt \<le> DaysInMonth y (m + 1)"
    and w: "0 \<le> w" "w < msPerDay"
  defines "t \<equiv> MakeDate (MakeDay y m dt) w"
  shows "Day t = MakeDay y m dt"
    and "YearFromTime t = y"
    and "MonthFromTime t = m"
    and "DateFromTime t = dt"
proof -
  define l :: int where "l = (if DaysInYear y = 366 then 1 else 0)"
  define k where "k = DaysBeforeMonth l m + dt - 1"
  note f = DaysBeforeMonth_facts[OF m l_def]
  have D: "MakeDay y m dt = DayFromYear y + k"
    using MakeDay_in_year[OF m] by (simp add: k_def l_def)
  have l01: "l = 0 \<or> l = 1" by (simp add: l_def)
  have k: "0 \<le> k" "k < DaysInYear y"
    using f dt unfolding k_def by linarith+
  show day: "Day t = MakeDay y m dt"
    using w by (simp add: t_def MakeDate_def Day_def msPerDay_def)
  have "DayFromYear y \<le> Day t" "Day t < DayFromYear (y + 1)"
    using k by (simp_all add: day D DayFromYear_Suc)
  then show yr: "YearFromTime t = y"
    unfolding YearFromTime_def by (rule YearFromDay_unique)
  have dwy: "DayWithinYear t = k" by (simp add: DayWithinYear_def yr day D)
  have ily: "InLeapYear t = l" by (simp add: InLeapYear_def yr l_def)
  show mo: "MonthFromTime t = m"
  proof (rule MonthFromTime_unique[OF m ily l01])
    show "DaysBeforeMonth l m \<le> DayWithinYear t" using dt by (simp add: dwy k_def)
    show "DayWithinYear t < DaysBeforeMonth l (m + 1)" using dt f(2) by (simp add: dwy k_def)
  qed
  show "DateFromTime t = dt"
    by (simp add: DateFromTime_def dwy ily mo k_def)
qed

lemma MonthFromTime_range: "0 \<le> MonthFromTime t" "MonthFromTime t \<le> 11"
  by (simp_all add: MonthFromTime_def Let_def)

lemma InLeapYear_cases: "InLeapYear t = 0 \<or> InLeapYear t = 1"
  by (simp add: InLeapYear_def)

lemma MakeDay_civil:
  "MakeDay (YearFromTime t) (MonthFromTime t) (DateFromTime t + k) = Day t + k"
  unfolding MakeDay_in_year[OF MonthFromTime_range[of t]]
  by (simp add: DateFromTime_def DayWithinYear_def InLeapYear_def)

lemma DayWithinYear_bounds:
  "0 \<le> DayWithinYear t" "DayWithinYear t < DaysInYear (YearFromTime t)"
  using YearFromDay_bounds[of "Day t"] DayFromYear_Suc[of "YearFromDay (Day t)"]
  by (simp_all add: DayWithinYear_def YearFromTime_def)

lemma DaysInYear_leap: "DaysInYear (YearFromTime t) = 365 + InLeapYear t"
  using DaysInYear_bounds[of "YearFromTime t"] by (simp add: InLeapYear_def DaysInYear_def)

lemma Month_interval:
  "DaysBeforeMonth (InLeapYear t) (MonthFromTime t) \<le> DayWithinYear t"
  "DayWithinYear t < DaysBeforeMonth (InLeapYear t) (MonthFromTime t + 1)"
proof -
  define k where "k = DayWithinYear t"
  define l where "l = InLeapYear t"
  have k: "0 \<le> k" "k < 365 + l"
    using DayWithinYear_bounds[of t] by (simp_all add: k_def l_def DaysInYear_leap)
  have l: "l = 0 \<or> l = 1" unfolding l_def by (rule InLeapYear_cases)
  show "DaysBeforeMonth (InLeapYear t) (MonthFromTime t) \<le> DayWithinYear t"
    unfolding MonthFromTime_def Let_def k_def[symmetric] l_def[symmetric]
    using k l by (auto simp add: DaysBeforeMonth_def)
  show "DayWithinYear t < DaysBeforeMonth (InLeapYear t) (MonthFromTime t + 1)"
    unfolding MonthFromTime_def Let_def k_def[symmetric] l_def[symmetric]
    using k l by (auto simp add: DaysBeforeMonth_def)
qed

lemma DateFromTime_bounds:
  "1 \<le> DateFromTime t" "DateFromTime t \<le> DaysInMonth (YearFromTime t) (MonthFromTime t + 1)"
proof -
  have l: "InLeapYear t = (if DaysInYear (YearFromTime t) = 366 then 1 else 0)"
    by (simp add: InLeapYear_def)
  note f = DaysBeforeMonth_facts(2)[OF MonthFromTime_range l]
  show "1 \<le> DateFromTime t" using Month_interval(1)[of t] by (simp add: DateFromTime_def)
  show "DateFromTime t \<le> DaysInMonth (YearFromTime t) (MonthFromTime t + 1)"
    using Month_interval(2)[of t] f by (simp add: DateFromTime_def)
qed

lemma DayFromYear_less: "DayFromYear y < DayFromYear (y + 1)"
  using DayFromYear_Suc[of y] DaysInYear_bounds(1)[of y] by simp

lemma DayFromYear_mono:
  assumes "y \<le> z"
  shows "DayFromYear y \<le> DayFromYear z"
  using assms
proof (induction z rule: int_ge_induct)
  case base
  show ?case by simp
next
  case (step i)
  then show ?case using DayFromYear_less[of i] by simp
qed

lemma YearFromDay_range:
  assumes "DayFromYear a \<le> d" "d < DayFromYear b"
  shows "a \<le> YearFromDay d" "YearFromDay d < b"
proof -
  show "a \<le> YearFromDay d"
  proof (rule ccontr)
    assume "\<not> a \<le> YearFromDay d"
    then have "YearFromDay d + 1 \<le> a" by simp
    then have "DayFromYear (YearFromDay d + 1) \<le> DayFromYear a" by (rule DayFromYear_mono)
    then show False using YearFromDay_bounds(2)[of d] assms(1) by simp
  qed
  show "YearFromDay d < b"
  proof (rule ccontr)
    assume "\<not> YearFromDay d < b"
    then have "b \<le> YearFromDay d" by simp
    then have "DayFromYear b \<le> DayFromYear (YearFromDay d)" by (rule DayFromYear_mono)
    then show False using YearFromDay_bounds(1)[of d] assms(2) by simp
  qed
qed

lemma Day_MakeDate: "Day (MakeDate d 0) = d" "TimeWithinDay (MakeDate d 0) = 0"
  by (simp_all add: Day_def TimeWithinDay_def MakeDate_def msPerDay_def)

lemma Day_shift: "Day (t + k * msPerDay) = Day t + k"
  by (simp add: Day_def msPerDay_def)

lemma TimeWithinDay_shift: "TimeWithinDay (t + k * msPerDay) = TimeWithinDay t"
  by (simp add: TimeWithinDay_def msPerDay_def)

lemma MakeDate_Day: "MakeDate (Day t) (TimeWithinDay t) = t"
  by (simp add: MakeDate_def Day_def TimeWithinDay_def)

section \<open>Printing and parsing dates\<close>

lemma digit_disj:
  fixes k :: int
  assumes "0 \<le> k" "k \<le> 9"
  shows "k = 0 \<or> k = 1 \<or> k = 2 \<or> k = 3 \<or> k = 4 \<or> k = 5 \<or> k = 6 \<or> k = 7 \<or> k = 8 \<or> k = 9"
  using assms by arith

lemma mod10_range: "0 \<le> (n::int) mod 10" "(n::int) mod 10 \<le> 9"
proof -
  show "0 \<le> n mod 10" by simp
  have "n mod 10 < 10" by simp
  then show "n mod 10 \<le> 9" by linarith
qed

lemma digit_digit_char: "digit (digit_char k) = Some (k mod 10)"
  using digit_disj[OF mod10_range[of k]]
  by (elim disjE) (simp_all add: digit_def digit_char_def)

lemma digit_char_not_sep:
  "digit_char k \<noteq> CHR ''T''" "digit_char k \<noteq> CHR ''-''"
  using digit_disj[OF mod10_range[of k]]
  by (elim disjE; simp add: digit_char_def)+

lemma decimal_step: "(n::int) = 10 * (n div 10) + n mod 10"
  by simp

lemma decimal4:
  fixes a b c e r1 r2 r3 :: int
  assumes "c = 10 * e + r3" "b = 10 * c + r2" "a = 10 * b + r1"
  shows "10 * (10 * (10 * e + r3) + r2) + r1 = a"
  using assms by simp

lemma div_small:
  fixes n k :: int
  assumes "0 \<le> n" "n < 10 * k" "0 < k"
  shows "0 \<le> n div k" "n div k \<le> 9"
proof -
  define q where "q = n div k"
  have 1: "k * q \<le> n" and 2: "n < k * q + k"
    unfolding q_def using div_bounds[OF assms(3), of n] by simp_all
  show "0 \<le> n div k" using assms by (simp add: pos_imp_zdiv_nonneg_iff)
  have "k * q < k * 10" using 1 assms(2) by (simp add: mult.commute)
  then have "q < 10" using assms(3) by (simp add: mult_less_cancel_left_pos)
  then show "n div k \<le> 9" by (simp add: q_def)
qed

lemma number_digits2:
  "number 0 [digit_char a, digit_char b] = Some (10 * (a mod 10) + b mod 10)"
  by (simp add: digit_digit_char)

lemma number_digits4:
  "number 0 [digit_char a, digit_char b, digit_char c, digit_char d]
    = Some (10 * (10 * (10 * (a mod 10) + b mod 10) + c mod 10) + d mod 10)"
  by (simp add: digit_digit_char)

lemma number_pad2:
  assumes "0 \<le> n" "n \<le> 99"
  shows "number 0 (pad2 n) = Some n"
proof -
  have "0 \<le> n div 10" "n div 10 \<le> 9" using div_small[of n 10] assms by simp_all
  then have "n div 10 mod 10 = n div 10" by simp
  then have e: "10 * (n div 10 mod 10) + n mod 10 = n" by simp
  have "number 0 (pad2 n) = Some (10 * (n div 10 mod 10) + n mod 10)"
    unfolding pad2_def by (rule number_digits2)
  then show ?thesis by (simp only: e)
qed

lemma number_pad4:
  assumes "0 \<le> n" "n \<le> 9999"
  shows "number 0 (pad4 n) = Some n"
proof -
  have a: "n div 10 div 10 = n div 100"
    using zdiv_zmult2_eq[of 10 n 10] by simp
  have b: "n div 100 div 10 = n div 1000"
    using zdiv_zmult2_eq[of 10 n 100] by simp
  have "0 \<le> n div 1000" "n div 1000 \<le> 9" using div_small[of n 1000] assms by simp_all
  then have c: "n div 1000 mod 10 = n div 1000" by simp
  have "n div 100 = 10 * (n div 1000) + n div 100 mod 10"
    using decimal_step[of "n div 100"] by (simp only: b)
  moreover have "n div 10 = 10 * (n div 100) + n div 10 mod 10"
    using decimal_step[of "n div 10"] by (simp only: a)
  moreover note decimal_step[of n]
  ultimately have e:
    "10 * (10 * (10 * (n div 1000 mod 10) + n div 100 mod 10) + n div 10 mod 10) + n mod 10 = n"
    unfolding c by (rule decimal4)
  have "number 0 (pad4 n) =
    Some (10 * (10 * (10 * (n div 1000 mod 10) + n div 100 mod 10) + n div 10 mod 10) + n mod 10)"
    unfolding pad4_def pad3_def pad2_def by (rule number_digits4)
  then show ?thesis by (simp only: e)
qed

lemma DaysInMonth_le_31: "DaysInMonth y m \<le> 31"
  by (simp add: DaysInMonth_def)

lemma iso_date_4digit:
  assumes "0 \<le> y" "y \<le> 9999"
  shows "iso_date y m d = pad4 y @ CHR ''-'' # pad2 m @ CHR ''-'' # pad2 d"
  using assms by (simp add: iso_date_def year_string_def)

lemma length_pad: "length (pad4 y) = 4" "length (pad2 k) = 2"
  by (simp_all add: pad4_def pad3_def pad2_def)

lemma parse_date_part_iso_date:
  assumes "0 \<le> y" "y \<le> 9999" "1 \<le> m" "m \<le> 12" "1 \<le> d" "d \<le> DaysInMonth y m"
  shows "parse_date_part (iso_date y m d) = Some (MakeDay y (m - 1) d)"
proof -
  have d99: "d \<le> 99" using assms(6) DaysInMonth_le_31[of y m] by linarith
  have ny: "number 0 (pad4 y) = Some y" by (rule number_pad4) fact+
  have nm: "number 0 (pad2 m) = Some m" by (rule number_pad2) (use assms in simp_all)
  have nd: "number 0 (pad2 d) = Some d" by (rule number_pad2) (use assms d99 in simp_all)
  have len: "length (pad4 y @ CHR ''-'' # pad2 m @ CHR ''-'' # pad2 d) = 10"
    by (simp add: length_pad)
  have c4: "(pad4 y @ CHR ''-'' # pad2 m @ CHR ''-'' # pad2 d) ! 4 = CHR ''-''"
    by (simp add: nth_append length_pad)
  have c7: "(pad4 y @ CHR ''-'' # pad2 m @ CHR ''-'' # pad2 d) ! 7 = CHR ''-''"
    by (simp add: nth_append length_pad pad2_def)
  have t4: "take 4 (pad4 y @ CHR ''-'' # pad2 m @ CHR ''-'' # pad2 d) = pad4 y"
    by (simp add: length_pad)
  have t2: "take 2 (drop 5 (pad4 y @ CHR ''-'' # pad2 m @ CHR ''-'' # pad2 d)) = pad2 m"
    by (simp add: length_pad)
  have d8: "drop 8 (pad4 y @ CHR ''-'' # pad2 m @ CHR ''-'' # pad2 d) = pad2 d"
    by (simp add: length_pad)
  show ?thesis
    unfolding parse_date_part_def iso_date_4digit[OF assms(1,2)] len c4 c7 t4 t2 d8 ny nm nd
    using assms(3-6) by simp
qed

lemma length_iso_date:
  assumes "0 \<le> y" "y \<le> 9999"
  shows "length (iso_date y m d) = 10"
  by (simp add: iso_date_4digit[OF assms] length_pad)

lemma Date_parse_iso_date:
  assumes "0 \<le> y" "y \<le> 9999" "1 \<le> m" "m \<le> 12" "1 \<le> d" "d \<le> DaysInMonth y m"
  shows "Date_parse (iso_date y m d) = Some (MakeDate (MakeDay y (m - 1) d) 0)"
  unfolding Date_parse_def
  by (simp add: length_iso_date[OF assms(1,2)] parse_date_part_iso_date[OF assms])

lemma iso_date_nonempty: "iso_date y m d \<noteq> []"
  by (simp add: iso_date_def)

lemma split_T_0_pad:
  "split_T_0 (pad2 k @ r) = pad2 k @ split_T_0 r"
  "split_T_0 (pad4 k @ r) = pad4 k @ split_T_0 r"
  "split_T_0 (pad6 k @ r) = pad6 k @ split_T_0 r"
  by (simp_all add: split_T_0_def pad2_def pad3_def pad4_def pad6_def digit_char_not_sep)

lemma split_T_0_iso_date: "split_T_0 (iso_date y m d @ CHR ''T'' # r) = iso_date y m d"
proof -
  have p2: "takeWhile (\<lambda>c. c \<noteq> CHR ''T'') (pad2 k @ r) = pad2 k @ takeWhile (\<lambda>c. c \<noteq> CHR ''T'') r" for k r
    using split_T_0_pad(1) by (simp add: split_T_0_def)
  have p4: "takeWhile (\<lambda>c. c \<noteq> CHR ''T'') (pad4 k @ r) = pad4 k @ takeWhile (\<lambda>c. c \<noteq> CHR ''T'') r" for k r
    using split_T_0_pad(2) by (simp add: split_T_0_def)
  have p6: "takeWhile (\<lambda>c. c \<noteq> CHR ''T'') (pad6 k @ r) = pad6 k @ takeWhile (\<lambda>c. c \<noteq> CHR ''T'') r" for k r
    using split_T_0_pad(3) by (simp add: split_T_0_def)
  show ?thesis
    unfolding split_T_0_def iso_date_def year_string_def
    by (simp add: p2 p4 p6)
qed

lemma toISOString_date:
  "map_sum id split_T_0 (toISOString (Some t))
     = Inr (iso_date (YearFromTime t) (MonthFromTime t + 1) (DateFromTime t))"
  unfolding toISOString_def by (simp add: split_T_0_iso_date)

section \<open>Day counts\<close>

lemma ceil_days_real: "ceil_days (Finite a) = Finite \<lceil>real_of_int a / real_of_int msPerDay\<rceil>"
  by (simp add: ceiling_divide_eq_div)

lemma ceil_days_multiple: "ceil_days (Finite (k * msPerDay)) = Finite k"
  by (simp add: msPerDay_def)

text \<open>The rounded-up day count of a difference that lies between two whole numbers of days.\<close>

lemma ceil_days_bounds:
  shows "k * msPerDay < x \<Longrightarrow> k < - ((- x) div msPerDay)"
    and "x \<le> j * msPerDay \<Longrightarrow> - ((- x) div msPerDay) \<le> j"
proof -
  define q where "q = (- x) div msPerDay"
  have pos: "0 < msPerDay" by (simp add: msPerDay_def)
  have 1: "msPerDay * q \<le> - x" and 2: "- x < msPerDay * q + msPerDay"
    unfolding q_def using div_bounds[OF pos, of "- x"] by simp_all
  show "k < - ((- x) div msPerDay)" if "k * msPerDay < x"
  proof -
    have "msPerDay * k < msPerDay * (- q)" using that 1 by (simp add: mult.commute)
    then have "k < - q" using pos by (simp only: mult_less_cancel_left_pos)
    then show ?thesis by (simp add: q_def)
  qed
  show "- ((- x) div msPerDay) \<le> j" if "x \<le> j * msPerDay"
  proof -
    have "msPerDay * (- q - 1) < msPerDay * j"
      using that 2 by (simp add: algebra_simps)
    then have "- q - 1 < j" using pos by (simp only: mult_less_cancel_left_pos)
    then show ?thesis by (simp add: q_def)
  qed
qed

lemma setHours0_Some: "setHours0 e (Some t) = Some (midnight e t)"
  by (simp add: setHours0_def midnight_def)

lemma midnight_eq:
  "midnight e t = localDay e t * msPerDay - tza e (localDay e t * msPerDay) False"
  by (simp add: midnight_def localDay_def UTC_def MakeDate_def MakeTime_def)

lemma Date_parse_nonempty: "Date_parse s = Some t \<Longrightarrow> s \<noteq> []"
  by (auto simp add: Date_parse_def)

lemma getDaysUntilExpiration_value:
  assumes "Date_parse s = Some t"
  shows "getDaysUntilExpiration e (Some s)
    = Finite (- ((- (midnight e t - midnight e (now e))) div msPerDay))"
  using Date_parse_nonempty[OF assms] assms
  by (simp add: getDaysUntilExpiration_def Let_def setHours0_Some getTime_def)

lemma getDaysUntilExpiration_invalid:
  assumes "s \<noteq> []" "Date_parse s = None"
  shows "getDaysUntilExpiration e (Some s) = NaN"
  using assms
  by (simp add: getDaysUntilExpiration_def Let_def setHours0_def getTime_def)

lemma needsRipenessCheck_value:
  assumes "Date_parse s = Some t"
  shows "needsRipenessCheck e (Some s) (Some th)
    \<longleftrightarrow> th < - ((- (midnight e (now e) - midnight e t)) div msPerDay)"
  using Date_parse_nonempty[OF assms] assms
  by (simp add: needsRipenessCheck_def Let_def setHours0_Some getTime_def)

text \<open>
  A date-only string parses to midnight UTC of its day \<open>D\<close>. Where every offset is less
  than a day, that instant lies on the local day \<open>D\<close> or the one before, and the day
  count is within three days of \<open>D\<close> minus the local day of the clock.
\<close>

lemma localDay_date_only_bounds:
  assumes "- msPerDay < tza e (MakeDate D 0) True" "tza e (MakeDate D 0) True < msPerDay"
  shows "D - 1 \<le> localDay e (MakeDate D 0)" "localDay e (MakeDate D 0) \<le> D"
proof -
  define o' where "o' = tza e (MakeDate D 0) True"
  define L where "L = (D * msPerDay + o') div msPerDay"
  have pos: "0 < msPerDay" by (simp add: msPerDay_def)
  have 1: "msPerDay * L \<le> D * msPerDay + o'" and 2: "D * msPerDay + o' < msPerDay * L + msPerDay"
    unfolding L_def by (rule div_bounds, rule pos)+
  have l: "localDay e (MakeDate D 0) = L"
    by (simp add: localDay_def LocalTime_def MakeDate_def Day_def L_def o'_def)
  have "msPerDay * (D - 1) < msPerDay * (L + 1)"
    using 2 assms(1) by (simp add: o'_def algebra_simps)
  then have "D - 1 < L + 1" using pos by (simp only: mult_less_cancel_left_pos)
  then show "D - 1 \<le> localDay e (MakeDate D 0)" by (simp add: l)
  have "msPerDay * L < msPerDay * (D + 1)"
    using 1 assms(2) by (simp add: o'_def algebra_simps)
  then have "L < D + 1" using pos by (simp only: mult_less_cancel_left_pos)
  then show "localDay e (MakeDate D 0) \<le> D" by (simp add: l)
qed

lemma getDaysUntilExpiration_bounds:
  assumes z: "\<And>t i. - msPerDay < tza e t i \<and> tza e t i < msPerDay"
    and p: "Date_parse s = Some (MakeDate D 0)"
  obtains n where "getDaysUntilExpiration e (Some s) = Finite n"
    and "D - localDay e (now e) - 3 < n" and "n \<le> D - localDay e (now e) + 2"
proof -
  define L where "L = localDay e (MakeDate D 0)"
  define N where "N = localDay e (now e)"
  define oL where "oL = tza e (L * msPerDay) False"
  define oN where "oN = tza e (N * msPerDay) False"
  define x where "x = midnight e (MakeDate D 0) - midnight e (now e)"
  have L: "D - 1 \<le> L" "L \<le> D"
    unfolding L_def using localDay_date_only_bounds[of e D] z by simp_all
  have o: "- msPerDay < oL" "oL < msPerDay" "- msPerDay < oN" "oN < msPerDay"
    unfolding oL_def oN_def using z by simp_all
  have x: "x = (L - N) * msPerDay - oL + oN"
    by (simp add: x_def midnight_eq L_def N_def oL_def oN_def algebra_simps)
  have "(D - N - 3) * msPerDay < x"
  proof -
    have "(D - N - 3) * msPerDay \<le> (L - N - 2) * msPerDay"
      using L(1) by (simp add: msPerDay_def)
    also have "\<dots> < x" using o(2,3) by (simp add: x algebra_simps)
    finally show ?thesis .
  qed
  then have lo: "D - N - 3 < - ((- x) div msPerDay)" by (rule ceil_days_bounds(1))
  have "x \<le> (D - N + 2) * msPerDay"
  proof -
    have "x \<le> (L - N + 2) * msPerDay" using o(1,4) by (simp add: x algebra_simps)
    also have "\<dots> \<le> (D - N + 2) * msPerDay" using L(2) by (simp add: msPerDay_def)
    finally show ?thesis .
  qed
  then have hi: "- ((- x) div msPerDay) \<le> D - N + 2" by (rule ceil_days_bounds(2))
  show thesis
  proof (rule that)
    show "getDaysUntilExpiration e (Some s) = Finite (- ((- x) div msPerDay))"
      unfolding x_def by (rule getDaysUntilExpiration_value[OF p])
    show "D - localDay e (now e) - 3 < - ((- x) div msPerDay)" using lo by (simp add: N_def)
    show "- ((- x) div msPerDay) \<le> D - localDay e (now e) + 2" using hi by (simp add: N_def)
  qed
qed

text \<open>A zone whose offset is the same at all times.\<close>

lemma constant_zone:
  assumes "\<And>t i. tza e t i = z"
  shows "LocalTime e t = t + z" and "UTC e t = t - z"
    and "midnight e t = localDay e t * msPerDay - z"
  using assms by (simp_all add: LocalTime_def UTC_def midnight_eq)

lemma getDaysUntilExpiration_parsed:
  assumes c: "\<And>t i. tza e t i = z" and p: "Date_parse s = Some t"
  shows "getDaysUntilExpiration e (Some s) = Finite (localDay e t - localDay e (now e))"
proof -
  have "midnight e t - midnight e (now e) = (localDay e t - localDay e (now e)) * msPerDay"
    by (simp add: constant_zone(3)[OF c] algebra_simps)
  then show ?thesis
    unfolding getDaysUntilExpiration_value[OF p] by (simp add: msPerDay_def)
qed

lemma localDay_date_only:
  assumes c: "\<And>t i. tza e t i = z"
  shows "localDay e (MakeDate D 0) = D + z div msPerDay"
  by (simp add: localDay_def constant_zone(1)[OF c] MakeDate_def Day_def msPerDay_def)

section \<open>Mutation API: add, delete, update\<close>

text \<open>
  Claim C6. For every collection \<open>C\<close> and every ingredient \<open>i\<close> whose id does not
  occur in \<open>C\<close>, deleting \<open>i\<close>'s id from the collection with \<open>i\<close> added gives
  \<open>C\<close> back: the same records in the same order, hence also the same collection
  up to order.
\<close>

theorem delete_after_add:
  assumes "id' i \<notin> id' ` set C"
  shows "deleteIngredient (addIngredient C i) (id' i) = C"
proof -
  have "\<forall>x \<in> set C. id' x \<noteq> id' i"
    using assms by (metis imageI)
  then have "filter (\<lambda>item. id' item \<noteq> id' i) C = C"
    by (simp add: filter_True)
  then show ?thesis by (simp add: deleteIngredient_def addIngredient_def)
qed

theorem delete_after_add_witness:
  "id' peas \<notin> id' ` set [apple, milk]
   \<and> deleteIngredient (addIngredient [apple, milk] peas) (id' peas) = [apple, milk]"
proof -
  have h: "id' peas \<notin> id' ` set [apple, milk]" by (simp add: apple_def milk_def peas_def)
  show ?thesis using h delete_after_add[OF h] by simp
qed

text \<open>
  Claim C7. In a collection \<open>C\<close> with unique ids that holds the record \<open>i\<close> at
  position \<open>p\<close>, updating with a record \<open>i'\<close> of the same id gives a collection of
  the same length whose record at \<open>p\<close> is \<open>i'\<close> and whose other records are
  unchanged. If no record of \<open>C\<close> has the id of \<open>i'\<close>, the collection is returned
  unchanged: nothing is inserted.
\<close>

theorem update_replaces_in_place:
  "(distinct (map id' C) \<and> p < length C \<and> C ! p = i \<and> id' i' = id' i \<longrightarrow>
      length (updateIngredient C i') = length C
      \<and> updateIngredient C i' ! p = i'
      \<and> (\<forall>q < length C. q \<noteq> p \<longrightarrow> updateIngredient C i' ! q = C ! q)
      \<and> updateIngredient C i' = C[p := i'])
   \<and> (id' i' \<notin> id' ` set C \<longrightarrow> updateIngredient C i' = C)"
proof (intro conjI impI)
  assume "id' i' \<notin> id' ` set C"
  then have "\<forall>x \<in> set C. id' x \<noteq> id' i'" by (metis imageI)
  then have "\<forall>x \<in> set C. (if id' x = id' i' then i' else x) = x" by simp
  then show "updateIngredient C i' = C"
    unfolding updateIngredient_def by (simp add: map_idI)
next
  assume a: "distinct (map id' C) \<and> p < length C \<and> C ! p = i \<and> id' i' = id' i"
  then have d: "distinct (map id' C)" and p: "p < length C" and e: "id' (C ! p) = id' i'" by auto
  have other: "id' (C ! q) \<noteq> id' i'" if "q < length C" "q \<noteq> p" for q
  proof
    assume "id' (C ! q) = id' i'"
    then have "map id' C ! q = map id' C ! p" using that p e by simp
    moreover have "q < length (map id' C)" "p < length (map id' C)" using that p by simp_all
    ultimately have "q = p" using nth_eq_iff_index_eq[OF d] by blast
    then show False using that by simp
  qed
  show len: "length (updateIngredient C i') = length C" by (simp add: updateIngredient_def)
  show at: "updateIngredient C i' ! p = i'" using p e by (simp add: updateIngredient_def)
  show rest: "\<forall>q < length C. q \<noteq> p \<longrightarrow> updateIngredient C i' ! q = C ! q"
    using other by (simp add: updateIngredient_def)
  show "updateIngredient C i' = C[p := i']"
  proof (rule nth_equalityI)
    show "length (updateIngredient C i') = length (C[p := i'])" using len by simp
  next
    fix q assume "q < length (updateIngredient C i')"
    then have q: "q < length C" using len by simp
    show "updateIngredient C i' ! q = C[p := i'] ! q"
    proof (cases "q = p")
      case True
      then show ?thesis using at p by simp
    next
      case False
      then show ?thesis using rest q by simp
    qed
  qed
qed

theorem update_replaces_in_place_witness:
  "updateIngredient [apple, milk, peas] (milk\<lparr>isOpened := True\<rparr>)
     = [apple, milk\<lparr>isOpened := True\<rparr>, peas]
   \<and> updateIngredient [apple, peas] (milk\<lparr>isOpened := True\<rparr>) = [apple, peas]"
proof -
  have h1: "distinct (map id' [apple, milk, peas]) \<and> (1::nat) < length [apple, milk, peas]
      \<and> [apple, milk, peas] ! 1 = milk \<and> id' (milk\<lparr>isOpened := True\<rparr>) = id' milk"
    by (simp add: apple_def milk_def peas_def)
  have h2: "id' (milk\<lparr>isOpened := True\<rparr>) \<notin> id' ` set [apple, peas]"
    by (simp add: apple_def milk_def peas_def)
  from h1 update_replaces_in_place[of "[apple, milk, peas]" 1 milk "milk\<lparr>isOpened := True\<rparr>"]
  have "updateIngredient [apple, milk, peas] (milk\<lparr>isOpened := True\<rparr>)
      = [apple, milk, peas][1 := milk\<lparr>isOpened := True\<rparr>]" by blast
  moreover from h2 update_replaces_in_place[of "[apple, peas]" 0 apple "milk\<lparr>isOpened := True\<rparr>"]
  have "updateIngredient [apple, peas] (milk\<lparr>isOpened := True\<rparr>) = [apple, peas]" by blast
  ultimately show ?thesis by simp
qed

section \<open>The expiring-soon view\<close>

text \<open>
  Claim C1. The expiring-soon view keeps a record if and only if its ripeness is
  "Ripe/Mature" or it is opened, or it has an expiration that is expiring soon and it is
  not frozen or still expiring soon. In particular a ripe record with no expiration that
  is not opened is kept; a record that is neither ripe nor opened and expires 10 days
  after the local day of the clock is dropped at threshold 7; and a frozen record that
  expires 3 days after the local day of the clock is kept at threshold 7. The last two
  hold in every zone whose offsets are less than a day, whether or not they change
  between the clock and the expiration.
\<close>

theorem expiring_soon_view:
  "getExpiringSoonIngredients e xs th
     = filter (\<lambda>item. (ripeness item = Some ''Ripe/Mature'' \<or> isOpened item)
                \<or> (truthy (expiration item) \<and> isExpiringSoon e (expiration item) th
                    \<and> (\<not> isFrozen item \<or> isExpiringSoon e (expiration item) th))) xs
   \<and> (item \<in> set xs \<and> ripeness item = Some ''Ripe/Mature'' \<and> \<not> truthy (expiration item)
        \<and> \<not> isOpened item
        \<longrightarrow> item \<in> set (getExpiringSoonIngredients e xs th))
   \<and> ((\<forall>t i. - msPerDay < tza e t i \<and> tza e t i < msPerDay)
        \<and> expiration item = Some s
        \<and> Date_parse s = Some (MakeDate (localDay e (now e) + 10) 0)
        \<and> ripeness item \<noteq> Some ''Ripe/Mature'' \<and> \<not> isOpened item
        \<longrightarrow> item \<notin> set (getExpiringSoonIngredients e xs 7))
   \<and> ((\<forall>t i. - msPerDay < tza e t i \<and> tza e t i < msPerDay)
        \<and> item \<in> set xs \<and> isFrozen item \<and> expiration item = Some s
        \<and> Date_parse s = Some (MakeDate (localDay e (now e) + 3) 0)
        \<longrightarrow> item \<in> set (getExpiringSoonIngredients e xs 7))"
proof (intro conjI impI)
  show "getExpiringSoonIngredients e xs th
     = filter (\<lambda>item. (ripeness item = Some ''Ripe/Mature'' \<or> isOpened item)
                \<or> (truthy (expiration item) \<and> isExpiringSoon e (expiration item) th
                    \<and> (\<not> isFrozen item \<or> isExpiringSoon e (expiration item) th))) xs"
    unfolding getExpiringSoonIngredients_def Let_def
    by (rule filter_cong) auto
next
  assume "item \<in> set xs \<and> ripeness item = Some ''Ripe/Mature'' \<and> \<not> truthy (expiration item)
      \<and> \<not> isOpened item"
  then show "item \<in> set (getExpiringSoonIngredients e xs th)"
    by (simp add: getExpiringSoonIngredients_def)
next
  assume a: "(\<forall>t i. - msPerDay < tza e t i \<and> tza e t i < msPerDay)
      \<and> expiration item = Some s
      \<and> Date_parse s = Some (MakeDate (localDay e (now e) + 10) 0)
      \<and> ripeness item \<noteq> Some ''Ripe/Mature'' \<and> \<not> isOpened item"
  then have z: "\<And>t i. - msPerDay < tza e t i \<and> tza e t i < msPerDay"
    and p: "Date_parse s = Some (MakeDate (localDay e (now e) + 10) 0)" by simp_all
  obtain n where n: "getDaysUntilExpiration e (Some s) = Finite n"
    "localDay e (now e) + 10 - localDay e (now e) - 3 < n"
    by (rule getDaysUntilExpiration_bounds[OF z p])
  have "\<not> isExpiringSoon e (Some s) 7"
    using n by (simp add: isExpiringSoon_def Let_def)
  then show "item \<notin> set (getExpiringSoonIngredients e xs 7)"
    using a by (simp add: getExpiringSoonIngredients_def)
next
  assume a: "(\<forall>t i. - msPerDay < tza e t i \<and> tza e t i < msPerDay)
      \<and> item \<in> set xs \<and> isFrozen item \<and> expiration item = Some s
      \<and> Date_parse s = Some (MakeDate (localDay e (now e) + 3) 0)"
  then have z: "\<And>t i. - msPerDay < tza e t i \<and> tza e t i < msPerDay"
    and p: "Date_parse s = Some (MakeDate (localDay e (now e) + 3) 0)" by simp_all
  obtain n where n: "getDaysUntilExpiration e (Some s) = Finite n"
    "localDay e (now e) + 3 - localDay e (now e) - 3 < n"
    "n \<le> localDay e (now e) + 3 - localDay e (now e) + 2"
    by (rule getDaysUntilExpiration_bounds[OF z p])
  have "isExpiringSoon e (Some s) 7"
    using n Date_parse_nonempty[OF p] by (simp add: isExpiringSoon_def Let_def truthy_def js_ge_def)
  then show "item \<in> set (getExpiringSoonIngredients e xs 7)"
    using a Date_parse_nonempty[OF p] by (simp add: getExpiringSoonIngredients_def truthy_def)
qed

theorem expiring_soon_view_witness:
  "getExpiringSoonIngredients winter_bogota [apple, milk, peas] 7 = [apple, peas]
   \<and> apple \<in> set (getExpiringSoonIngredients winter_bogota [apple, milk, peas] 7)
   \<and> milk \<notin> set (getExpiringSoonIngredients winter_bogota [apple, milk, peas] 7)
   \<and> peas \<in> set (getExpiringSoonIngredients winter_bogota [apple, milk, peas] 7)
   \<and> autumn_milk \<notin> set (getExpiringSoonIngredients autumn_berlin [autumn_milk, autumn_peas] 7)
   \<and> autumn_peas \<in> set (getExpiringSoonIngredients autumn_berlin [autumn_milk, autumn_peas] 7)"
proof -
  note t = expiring_soon_view[of winter_bogota "[apple, milk, peas]" 7]
  have z: "\<forall>t i. - msPerDay < tza winter_bogota t i \<and> tza winter_bogota t i < msPerDay"
    by (simp add: winter_bogota_def msPerDay_def)
  have h1: "apple \<in> set [apple, milk, peas] \<and> ripeness apple = Some ''Ripe/Mature''
      \<and> \<not> truthy (expiration apple) \<and> \<not> isOpened apple"
    by (simp add: apple_def truthy_def)
  have m: "Date_parse ''2024-01-25'' = Some (MakeDate (localDay winter_bogota (now winter_bogota) + 10) 0)"
    by code_simp
  have h2: "expiration milk = Some ''2024-01-25'' \<and> ripeness milk \<noteq> Some ''Ripe/Mature''
      \<and> \<not> isOpened milk"
    by (simp add: milk_def)
  have p: "Date_parse ''2024-01-18'' = Some (MakeDate (localDay winter_bogota (now winter_bogota) + 3) 0)"
    by code_simp
  have h3: "peas \<in> set [apple, milk, peas] \<and> isFrozen peas \<and> expiration peas = Some ''2024-01-18''"
    by (simp add: peas_def)
  note u = expiring_soon_view[of autumn_berlin "[autumn_milk, autumn_peas]" 7]
  have zb: "\<forall>t i. - msPerDay < tza autumn_berlin t i \<and> tza autumn_berlin t i < msPerDay"
    by (simp add: autumn_berlin_def europe_berlin_def Let_def msPerDay_def)
  have mb: "Date_parse ''2024-11-04'' = Some (MakeDate (localDay autumn_berlin (now autumn_berlin) + 10) 0)"
    by code_simp
  have h4: "expiration autumn_milk = Some ''2024-11-04'' \<and> ripeness autumn_milk \<noteq> Some ''Ripe/Mature''
      \<and> \<not> isOpened autumn_milk"
    by (simp add: autumn_milk_def milk_def)
  have pb: "Date_parse ''2024-10-28'' = Some (MakeDate (localDay autumn_berlin (now autumn_berlin) + 3) 0)"
    by code_simp
  have h5: "autumn_peas \<in> set [autumn_milk, autumn_peas] \<and> isFrozen autumn_peas
      \<and> expiration autumn_peas = Some ''2024-10-28''"
    by (simp add: autumn_peas_def peas_def)
  have "apple \<in> set (getExpiringSoonIngredients winter_bogota [apple, milk, peas] 7)"
    using t[of apple] h1 by blast
  moreover have "milk \<notin> set (getExpiringSoonIngredients winter_bogota [apple, milk, peas] 7)"
    using t[of milk "''2024-01-25''"] z h2 m by blast
  moreover have "peas \<in> set (getExpiringSoonIngredients winter_bogota [apple, milk, peas] 7)"
    using t[of peas "''2024-01-18''"] z h3 p by blast
  moreover have "getExpiringSoonIngredients winter_bogota [apple, milk, peas] 7 = [apple, peas]"
    by code_simp
  moreover have
    "autumn_milk \<notin> set (getExpiringSoonIngredients autumn_berlin [autumn_milk, autumn_peas] 7)"
    using u[of autumn_milk "''2024-11-04''"] zb h4 mb by blast
  moreover have
    "autumn_peas \<in> set (getExpiringSoonIngredients autumn_berlin [autumn_milk, autumn_peas] 7)"
    using u[of autumn_peas "''2024-10-28''"] zb h5 pb by blast
  ultimately show ?thesis by blast
qed

text \<open>
  Claim C2. The expiring-soon view does not depend on the \<open>isFrozen\<close> flags: it is the
  filter by "ripe or opened, or the expiration is set and expiring soon", and setting
  the \<open>isFrozen\<close> flag of every record of a collection to any value \<open>f\<close> chooses (all
  other fields kept) selects the same records, with their new flags.
\<close>

theorem frozen_flag_irrelevant:
  "getExpiringSoonIngredients e xs th
     = filter (\<lambda>item. (ripeness item = Some ''Ripe/Mature'' \<or> isOpened item)
                       \<or> (truthy (expiration item) \<and> isExpiringSoon e (expiration item) th)) xs
   \<and> getExpiringSoonIngredients e (map (\<lambda>item. item\<lparr>isFrozen := f item\<rparr>) xs) th
     = map (\<lambda>item. item\<lparr>isFrozen := f item\<rparr>) (getExpiringSoonIngredients e xs th)"
proof
  show "getExpiringSoonIngredients e xs th
     = filter (\<lambda>item. (ripeness item = Some ''Ripe/Mature'' \<or> isOpened item)
                       \<or> (truthy (expiration item) \<and> isExpiringSoon e (expiration item) th)) xs"
    unfolding getExpiringSoonIngredients_def Let_def
    by (rule filter_cong) auto
  show "getExpiringSoonIngredients e (map (\<lambda>item. item\<lparr>isFrozen := f item\<rparr>) xs) th
     = map (\<lambda>item. item\<lparr>isFrozen := f item\<rparr>) (getExpiringSoonIngredients e xs th)"
    unfolding getExpiringSoonIngredients_def Let_def filter_map
    by (rule arg_cong[where f = "map _"], rule filter_cong) (auto simp add: comp_def)
qed

theorem frozen_flag_irrelevant_witness:
  "getExpiringSoonIngredients winter_utc [apple, milk, peas] 7 = [apple, peas]
   \<and> getExpiringSoonIngredients winter_utc
        (map (\<lambda>item. item\<lparr>isFrozen := \<not> isFrozen item\<rparr>) [apple, milk, peas]) 7
      = [apple\<lparr>isFrozen := True\<rparr>, peas\<lparr>isFrozen := False\<rparr>]"
proof -
  have v: "getExpiringSoonIngredients winter_utc [apple, milk, peas] 7 = [apple, peas]"
    by code_simp
  show ?thesis
    using frozen_flag_irrelevant[of winter_utc "[apple, milk, peas]" 7 "\<lambda>item. \<not> isFrozen item"]
    unfolding v by (simp add: apple_def peas_def)
qed

section \<open>The ripeness check\<close>

lemma needsRipenessCheck_default:
  "needsRipenessCheck e u None = needsRipenessCheck e u (Some 3)"
  by (simp add: needsRipenessCheck_def)

text \<open>
  The two local midnights are a whole number of local days apart, less the change of
  the offset between them; the day count rounds that difference up.
\<close>

lemma needsRipenessCheck_local_days:
  assumes z: "\<And>a b. tza e a False - tza e b False < msPerDay"
    and p: "Date_parse s = Some t"
  shows "localDay e (now e) - localDay e t \<ge> th + 1 \<Longrightarrow> needsRipenessCheck e (Some s) (Some th)"
    and "localDay e (now e) - localDay e t \<le> th - 1 \<Longrightarrow> \<not> needsRipenessCheck e (Some s) (Some th)"
proof -
  define N where "N = localDay e (now e)"
  define L where "L = localDay e t"
  define oN where "oN = tza e (N * msPerDay) False"
  define oL where "oL = tza e (L * msPerDay) False"
  define x where "x = midnight e (now e) - midnight e t"
  have o: "oN - oL < msPerDay" "oL - oN < msPerDay" unfolding oN_def oL_def using z by simp_all
  have x: "x = (N - L) * msPerDay - oN + oL"
    by (simp add: x_def midnight_eq N_def L_def oN_def oL_def algebra_simps)
  have v: "needsRipenessCheck e (Some s) (Some th) \<longleftrightarrow> th < - ((- x) div msPerDay)"
    unfolding x_def by (rule needsRipenessCheck_value[OF p])
  show "needsRipenessCheck e (Some s) (Some th)" if "localDay e (now e) - localDay e t \<ge> th + 1"
  proof -
    have "th * msPerDay \<le> (N - L - 1) * msPerDay"
      using that by (simp add: N_def L_def msPerDay_def)
    also have "\<dots> < x" using o(1) by (simp add: x algebra_simps)
    finally have "th < - ((- x) div msPerDay)" by (rule ceil_days_bounds(1))
    then show ?thesis by (simp add: v)
  qed
  show "\<not> needsRipenessCheck e (Some s) (Some th)" if "localDay e (now e) - localDay e t \<le> th - 1"
  proof -
    have "x \<le> (N - L + 1) * msPerDay" using o(2) by (simp add: x algebra_simps)
    also have "\<dots> \<le> th * msPerDay" using that by (simp add: N_def L_def msPerDay_def)
    finally have "- ((- x) div msPerDay) \<le> th" by (rule ceil_days_bounds(2))
    then show ?thesis by (simp add: v)
  qed
qed

text \<open>
  Claim C9. \<open>needsRipenessCheck\<close> is true if and only if the last update is set and
  the ceiling of (midnight(now) - midnight(last update)) / one day exceeds the
  threshold, which is 3 when the argument is left out; this holds in every zone. A last
  update 4 local days before the local day of the clock needs a check at threshold 3,
  one 2 days before does not, in every zone whose offset changes by less than a day,
  and an absent or empty last update never does.
\<close>

theorem ripeness_check_threshold:
  "(needsRipenessCheck e u (Some th) \<longleftrightarrow>
      (\<exists>s t. u = Some s \<and> s \<noteq> [] \<and> Date_parse s = Some t
         \<and> th < \<lceil>real_of_int (midnight e (now e) - midnight e t) / real_of_int msPerDay\<rceil>))
   \<and> needsRipenessCheck e u None = needsRipenessCheck e u (Some 3)
   \<and> ((\<forall>a b. tza e a False - tza e b False < msPerDay)
        \<and> Date_parse s = Some t \<and> localDay e t = localDay e (now e) - 4
        \<longrightarrow> needsRipenessCheck e (Some s) (Some 3))
   \<and> ((\<forall>a b. tza e a False - tza e b False < msPerDay)
        \<and> Date_parse s = Some t \<and> localDay e t = localDay e (now e) - 2
        \<longrightarrow> \<not> needsRipenessCheck e (Some s) (Some 3))
   \<and> \<not> needsRipenessCheck e None (Some th)
   \<and> \<not> needsRipenessCheck e (Some []) (Some th)"
proof (intro conjI impI)
  show "needsRipenessCheck e u (Some th) \<longleftrightarrow>
      (\<exists>s t. u = Some s \<and> s \<noteq> [] \<and> Date_parse s = Some t
         \<and> th < \<lceil>real_of_int (midnight e (now e) - midnight e t) / real_of_int msPerDay\<rceil>)"
  proof (cases "truthy u")
    case False
    then show ?thesis
      by (auto simp add: needsRipenessCheck_def truthy_def split: option.splits)
  next
    case True
    then obtain s where u: "u = Some s" "s \<noteq> []"
      by (auto simp add: truthy_def split: option.splits)
    show ?thesis
    proof (cases "Date_parse s")
      case None
      then show ?thesis using u
        by (simp add: needsRipenessCheck_def truthy_def Let_def setHours0_def getTime_def)
    next
      case (Some t)
      then show ?thesis using u
        by (simp add: needsRipenessCheck_def truthy_def Let_def setHours0_Some getTime_def
            ceil_days_real del: ceil_days.simps)
    qed
  qed
next
  show "needsRipenessCheck e u None = needsRipenessCheck e u (Some 3)"
    by (rule needsRipenessCheck_default)
next
  assume a: "(\<forall>a b. tza e a False - tza e b False < msPerDay)
      \<and> Date_parse s = Some t \<and> localDay e t = localDay e (now e) - 4"
  then have z: "\<And>a b. tza e a False - tza e b False < msPerDay"
    and p: "Date_parse s = Some t" by simp_all
  show "needsRipenessCheck e (Some s) (Some 3)"
    by (rule needsRipenessCheck_local_days(1)[OF z p]) (use a in simp)
next
  assume a: "(\<forall>a b. tza e a False - tza e b False < msPerDay)
      \<and> Date_parse s = Some t \<and> localDay e t = localDay e (now e) - 2"
  then have z: "\<And>a b. tza e a False - tza e b False < msPerDay"
    and p: "Date_parse s = Some t" by simp_all
  show "\<not> needsRipenessCheck e (Some s) (Some 3)"
    by (rule needsRipenessCheck_local_days(2)[OF z p]) (use a in simp)
next
  show "\<not> needsRipenessCheck e None (Some th)"
    by (simp add: needsRipenessCheck_def truthy_def)
next
  show "\<not> needsRipenessCheck e (Some []) (Some th)"
    by (simp add: needsRipenessCheck_def truthy_def)
qed

text \<open>
  On the device in Berlin the clocks went forward between the last update of 29 March
  and the clock of 2 April: the two local midnights are 95 hours apart, and the
  ceiling makes that 4 days.
\<close>

theorem ripeness_check_threshold_witness:
  "midnight spring_berlin (now spring_berlin) - midnight spring_berlin 1711713600000 = 95 * 3600000
   \<and> needsRipenessCheck spring_berlin (Some ''2024-03-29T12:00:00.000Z'') (Some 3)
   \<and> needsRipenessCheck spring_berlin (Some ''2024-03-29T12:00:00.000Z'') None
   \<and> \<not> needsRipenessCheck spring_berlin (Some ''2024-03-31T12:00:00.000Z'') (Some 3)
   \<and> needsRipenessCheck winter_bogota (Some ''2024-01-11T09:30:00.000Z'') (Some 3)
   \<and> \<not> needsRipenessCheck winter_bogota (Some ''2024-01-13T09:30:00.000Z'') (Some 3)"
proof -
  note t = ripeness_check_threshold[of spring_berlin]
  note w = ripeness_check_threshold[of winter_bogota]
  have z: "\<forall>a b. tza spring_berlin a False - tza spring_berlin b False < msPerDay"
    by (simp add: spring_berlin_def europe_berlin_def Let_def msPerDay_def)
  have zw: "\<forall>a b. tza winter_bogota a False - tza winter_bogota b False < msPerDay"
    by (simp add: winter_bogota_def msPerDay_def)
  have m: "midnight spring_berlin (now spring_berlin) - midnight spring_berlin 1711713600000
      = 95 * 3600000"
    by code_simp
  have a: "Date_parse ''2024-03-29T12:00:00.000Z'' = Some 1711713600000
      \<and> localDay spring_berlin 1711713600000 = localDay spring_berlin (now spring_berlin) - 4"
    by code_simp
  have b: "Date_parse ''2024-03-31T12:00:00.000Z'' = Some 1711886400000
      \<and> localDay spring_berlin 1711886400000 = localDay spring_berlin (now spring_berlin) - 2"
    by code_simp
  have c: "Date_parse ''2024-01-11T09:30:00.000Z'' = Some 1704965400000
      \<and> localDay winter_bogota 1704965400000 = localDay winter_bogota (now winter_bogota) - 4"
    by code_simp
  have d: "Date_parse ''2024-01-13T09:30:00.000Z'' = Some 1705138200000
      \<and> localDay winter_bogota 1705138200000 = localDay winter_bogota (now winter_bogota) - 2"
    by code_simp
  have 1: "needsRipenessCheck spring_berlin (Some ''2024-03-29T12:00:00.000Z'') (Some 3)"
    using t[where s = "''2024-03-29T12:00:00.000Z''" and t = 1711713600000] z a by blast
  have 2: "\<not> needsRipenessCheck spring_berlin (Some ''2024-03-31T12:00:00.000Z'') (Some 3)"
    using t[where s = "''2024-03-31T12:00:00.000Z''" and t = 1711886400000] z b by blast
  have 3: "needsRipenessCheck spring_berlin (Some ''2024-03-29T12:00:00.000Z'') None"
    using t[where u = "Some ''2024-03-29T12:00:00.000Z''"] 1 by blast
  have 4: "needsRipenessCheck winter_bogota (Some ''2024-01-11T09:30:00.000Z'') (Some 3)"
    using w[where s = "''2024-01-11T09:30:00.000Z''" and t = 1704965400000] zw c by blast
  have 5: "\<not> needsRipenessCheck winter_bogota (Some ''2024-01-13T09:30:00.000Z'') (Some 3)"
    using w[where s = "''2024-01-13T09:30:00.000Z''" and t = 1705138200000] zw d by blast
  show ?thesis using m 1 2 3 4 5 by blast
qed

section \<open>Ingredient store: load and clear\<close>

text \<open>
  Claim C10. \<open>loadIngredients\<close> returns the empty collection when nothing is stored
  under the key, when the store rejects the read, and when the stored text does not
  parse; and after \<open>clearAllIngredients\<close> has reported success, a following
  \<open>loadIngredients\<close> returns the empty collection, whether or not the store then
  rejects the read.
\<close>

theorem load_empty_and_clear:
  "(items st INGREDIENTS_STORAGE_KEY = None \<longrightarrow> loadIngredients JSON_parse st = [])
   \<and> (rejecting st \<longrightarrow> loadIngredients JSON_parse st = [])
   \<and> (items st INGREDIENTS_STORAGE_KEY = Some s \<and> JSON_parse s = None
        \<longrightarrow> loadIngredients JSON_parse st = [])
   \<and> (clearAllIngredients st = (True, st')
        \<longrightarrow> loadIngredients JSON_parse (st'\<lparr>rejecting := r\<rparr>) = [])"
  by (auto simp add: loadIngredients_def clearAllIngredients_def getItem_def removeItem_def
      truthy_def split: if_splits option.splits)

theorem load_empty_and_clear_witness:
  "loadIngredients (\<lambda>s. Some [apple]) \<lparr>items = Map.empty, rejecting = False\<rparr> = []
   \<and> loadIngredients (\<lambda>s. Some [apple]) (stored\<lparr>rejecting := True\<rparr>) = []
   \<and> loadIngredients (\<lambda>s. None) stored = []
   \<and> loadIngredients (\<lambda>s. Some [apple]) stored = [apple]
   \<and> clearAllIngredients stored = (True, \<lparr>items = Map.empty, rejecting = False\<rparr>)
   \<and> loadIngredients (\<lambda>s. Some [apple]) (snd (clearAllIngredients stored)) = []"
proof -
  have c: "clearAllIngredients stored = (True, \<lparr>items = Map.empty, rejecting = False\<rparr>)"
    by (simp add: clearAllIngredients_def removeItem_def stored_def INGREDIENTS_STORAGE_KEY_def)
  have l: "loadIngredients (\<lambda>s. Some [apple]) stored = [apple]"
    by (simp add: loadIngredients_def getItem_def stored_def INGREDIENTS_STORAGE_KEY_def truthy_def)
  have k: "items stored INGREDIENTS_STORAGE_KEY = Some ''[]''"
    by (simp add: stored_def INGREDIENTS_STORAGE_KEY_def)
  note t = load_empty_and_clear
  have "loadIngredients (\<lambda>s. Some [apple]) \<lparr>items = Map.empty, rejecting = False\<rparr> = []"
    using t[of "\<lparr>items = Map.empty, rejecting = False\<rparr>" "\<lambda>s. Some [apple]"] by simp
  moreover have "loadIngredients (\<lambda>s. Some [apple]) (stored\<lparr>rejecting := True\<rparr>) = []"
    using t[of "stored\<lparr>rejecting := True\<rparr>" "\<lambda>s. Some [apple]"] by simp
  moreover have "loadIngredients (\<lambda>s. None) stored = []"
    using t[of stored "\<lambda>s. None" "''[]''"] k by simp
  moreover have "loadIngredients (\<lambda>s. Some [apple]) (snd (clearAllIngredients stored)) = []"
    using t[where st = stored and st' = "\<lparr>items = Map.empty, rejecting = False\<rparr>"
        and JSON_parse = "\<lambda>s. Some [apple]" and r = False] c
    by simp
  ultimately show ?thesis using c l by simp
qed

section \<open>Adjusting the expiration of an opened item\<close>

lemma day_string_eq:
  "map_sum id split_T_0 (toISOString (Some (MakeDate k 0))) = Inr (day_string k)"
  by (simp add: toISOString_date day_string_def)

lemma day_string_MakeDay:
  assumes "1 \<le> m" "m \<le> 12" "1 \<le> d" "d \<le> DaysInMonth y m"
  shows "day_string (MakeDay y (m - 1) d) = iso_date y m d"
proof -
  have m: "0 \<le> m - 1" "m - 1 \<le> 11" using assms by simp_all
  have d: "1 \<le> d" "d \<le> DaysInMonth y (m - 1 + 1)" using assms by simp_all
  have w: "(0::int) \<le> 0" "0 < msPerDay" by (simp_all add: msPerDay_def)
  note c = civil_of_MakeDay[OF m d w]
  show ?thesis unfolding day_string_def c by simp
qed

lemma Date_parse_day_string:
  assumes "DayFromYear 0 \<le> k" "k < DayFromYear 10000"
  shows "Date_parse (day_string k) = Some (MakeDate k 0)"
proof -
  define t where "t = MakeDate k 0"
  have day: "Day t = k" by (simp add: t_def Day_MakeDate)
  have y: "0 \<le> YearFromTime t" "YearFromTime t \<le> 9999"
    using YearFromDay_range[OF assms] by (simp_all add: YearFromTime_def day)
  have mo: "1 \<le> MonthFromTime t + 1" "MonthFromTime t + 1 \<le> 12"
    using MonthFromTime_range[of t] by simp_all
  have "Date_parse (iso_date (YearFromTime t) (MonthFromTime t + 1) (DateFromTime t))
      = Some (MakeDate (MakeDay (YearFromTime t) (MonthFromTime t + 1 - 1) (DateFromTime t)) 0)"
    by (rule Date_parse_iso_date[OF y mo DateFromTime_bounds])
  moreover have "MakeDay (YearFromTime t) (MonthFromTime t) (DateFromTime t) = k"
    using MakeDay_civil[of t 0] by (simp add: day)
  ultimately show ?thesis by (simp add: day_string_def t_def)
qed

text \<open>
  In a zone whose offset never changes, \<open>setDate(getDate() - 7)\<close> moves the time value
  back by exactly seven days, and the date printed is the date seven days before.
\<close>

lemma setDate_minus7:
  assumes c: "\<And>t i. tza e t i = z"
  shows "setDate e (Some t) (map_option (\<lambda>d. d - 7) (getDate e (Some t)))
    = Some (t - 7 * msPerDay)"
proof -
  define lt where "lt = LocalTime e t"
  have "MakeDay (YearFromTime lt) (MonthFromTime lt) (DateFromTime lt - 7) = Day lt - 7"
    using MakeDay_civil[of lt "- 7"] by simp
  moreover have "MakeDate (Day lt - 7) (TimeWithinDay lt) = lt - 7 * msPerDay"
    using MakeDate_Day[of lt] by (simp add: MakeDate_def algebra_simps)
  ultimately show ?thesis
    by (simp add: setDate_def getDate_def Let_def lt_def[symmetric])
       (simp add: lt_def constant_zone(1,2)[OF c])
qed

lemma adjustExpirationForOpened_true:
  assumes c: "\<And>t i. tza e t i = z" and p: "Date_parse s = Some (MakeDate D 0)"
  shows "adjustExpirationForOpened e s True = Inr (day_string (D - 7))"
proof -
  have "MakeDate D 0 - 7 * msPerDay = MakeDate (D - 7) 0"
    by (simp add: MakeDate_def algebra_simps)
  then show ?thesis
    using Date_parse_nonempty[OF p]
    by (simp add: adjustExpirationForOpened_def p setDate_minus7[OF c] day_string_eq
        del: map_sum.simps)
qed

lemma adjustExpirationForOpened_false:
  assumes "Date_parse s = Some (MakeDate D 0)"
  shows "adjustExpirationForOpened e s False = Inr (day_string D)"
  using Date_parse_nonempty[OF assms]
  by (simp add: adjustExpirationForOpened_def assms day_string_eq del: map_sum.simps)

lemma MakeDay_year_range:
  assumes "0 \<le> m" "m \<le> 11" "1 \<le> d" "d \<le> DaysInMonth y (m + 1)"
  shows "DayFromYear y \<le> MakeDay y m d" "MakeDay y m d < DayFromYear (y + 1)"
proof -
  define l :: int where "l = (if DaysInYear y = 366 then 1 else 0)"
  note f = DaysBeforeMonth_facts[OF assms(1,2) l_def]
  show "DayFromYear y \<le> MakeDay y m d"
    unfolding MakeDay_in_year[OF assms(1,2)] l_def[symmetric] using f(1) assms(3) by simp
  show "MakeDay y m d < DayFromYear (y + 1)"
    unfolding MakeDay_in_year[OF assms(1,2)] l_def[symmetric] DayFromYear_Suc
    using f(2,3) assms(4) by simp
qed

lemma opened_seven_days_back_constant_zone:
  assumes c: "\<And>t i. tza e t i = z"
    and v: "1 \<le> y" "y \<le> 9999" "1 \<le> m" "m \<le> 12" "1 \<le> d" "d \<le> DaysInMonth y m"
  shows "Date_parse (iso_date y m d) = Some (MakeDate (MakeDay y (m - 1) d) 0)"
    and "adjustExpirationForOpened e (iso_date y m d) True
        = Inr (day_string (MakeDay y (m - 1) d - 7))"
    and "Date_parse (day_string (MakeDay y (m - 1) d - 7))
        = Some (MakeDate (MakeDay y (m - 1) d - 7) 0)"
proof -
  define D where "D = MakeDay y (m - 1) d"
  have y0: "0 \<le> y" using v(1) by simp
  show p: "Date_parse (iso_date y m d) = Some (MakeDate (MakeDay y (m - 1) d) 0)"
    by (rule Date_parse_iso_date[OF y0 v(2-6)])
  have r: "DayFromYear y \<le> D" "D < DayFromYear (y + 1)"
    unfolding D_def using MakeDay_year_range[of "m - 1" d y] v by simp_all
  have "DayFromYear 0 + DaysInYear 0 \<le> DayFromYear y"
    using DayFromYear_mono[of 1 y] DayFromYear_Suc[of 0] v(1) by simp
  then have lo: "DayFromYear 0 \<le> D - 7" using r(1) DaysInYear_bounds(1)[of 0] by linarith
  have "DayFromYear (y + 1) \<le> DayFromYear 10000"
    using v(2) by (intro DayFromYear_mono) simp
  then have hi: "D - 7 < DayFromYear 10000" using r(2) by linarith
  show "adjustExpirationForOpened e (iso_date y m d) True
      = Inr (day_string (MakeDay y (m - 1) d - 7))"
    by (rule adjustExpirationForOpened_true[OF c p])
  show "Date_parse (day_string (MakeDay y (m - 1) d - 7))
      = Some (MakeDate (MakeDay y (m - 1) d - 7) 0)"
    using Date_parse_day_string[OF lo hi] by (simp add: D_def)
qed

lemma opened_false_unchanged:
  assumes "0 \<le> y" "y \<le> 9999" "1 \<le> m" "m \<le> 12" "1 \<le> d" "d \<le> DaysInMonth y m"
  shows "adjustExpirationForOpened e (iso_date y m d) False = Inr (iso_date y m d)"
  using adjustExpirationForOpened_false[OF Date_parse_iso_date[OF assms], of e]
    day_string_MakeDay[OF assms(3-6)] by simp

text \<open>
  Claim C8. With the flag true, \<open>adjustExpirationForOpened\<close> is to move the date exactly
  7 calendar days back. \<open>getDate\<close> and \<open>setDate\<close> work in local time on a date that was
  parsed as midnight UTC, so the result depends on the zone. In a zone of constant
  offset it is the date 7 days before (\<open>opened_seven_days_back_constant_zone\<close>), and
  with the flag false the date is returned unchanged in every zone
  (\<open>opened_false_unchanged\<close>). Where the offset changes between the two dates it need
  not be: in Berlin, 2024-10-30 is 01:00 local time; seven local days earlier, before
  the clocks went back, 01:00 local time is 23:00 UTC of the day before, and the date
  printed is 2024-10-22, eight days back. On a device on UTC the same call gives
  2024-10-23, and the example 2024-01-08 gives 2024-01-01 on both.
\<close>

theorem opened_eight_days_back_after_clock_change:
  "adjustExpirationForOpened autumn_berlin ''2024-10-30'' True = Inr ''2024-10-22''
   \<and> adjustExpirationForOpened winter_utc ''2024-10-30'' True = Inr ''2024-10-23''
   \<and> adjustExpirationForOpened autumn_berlin ''2024-01-08'' True = Inr ''2024-01-01''
   \<and> adjustExpirationForOpened winter_utc ''2024-01-08'' True = Inr ''2024-01-01''"
  by code_simp

section \<open>Days until expiration and the expiring-soon test\<close>

lemma getDaysUntilExpiration_absent:
  "getDaysUntilExpiration e None = Infinity" "getDaysUntilExpiration e (Some []) = Infinity"
  by (simp_all add: getDaysUntilExpiration_def)

lemma getDaysUntilExpiration_ceiling:
  assumes "Date_parse s = Some t"
  shows "getDaysUntilExpiration e (Some s)
    = Finite \<lceil>real_of_int (midnight e t - midnight e (now e)) / real_of_int msPerDay\<rceil>"
  using Date_parse_nonempty[OF assms] assms
  by (simp add: getDaysUntilExpiration_def Let_def setHours0_Some getTime_def
      ceil_days_real del: ceil_days.simps)

lemma getDaysUntilExpiration_date_only:
  assumes c: "\<And>t i. tza e t i = z" and p: "Date_parse s = Some (MakeDate D 0)"
  shows "0 \<le> z \<Longrightarrow> z < msPerDay \<Longrightarrow>
      getDaysUntilExpiration e (Some s) = Finite (D - localDay e (now e))"
    and "- msPerDay \<le> z \<Longrightarrow> z < 0 \<Longrightarrow>
      getDaysUntilExpiration e (Some s) = Finite (D - localDay e (now e) - 1)"
proof -
  note g = getDaysUntilExpiration_parsed[OF c p, unfolded localDay_date_only[OF c]]
  show "getDaysUntilExpiration e (Some s) = Finite (D - localDay e (now e))"
    if "0 \<le> z" "z < msPerDay"
    using that g by simp
  show "getDaysUntilExpiration e (Some s) = Finite (D - localDay e (now e) - 1)"
    if "- msPerDay \<le> z" "z < 0"
  proof -
    have "z div msPerDay = - 1" using that by (simp add: msPerDay_def)
    then show ?thesis using g by simp
  qed
qed

text \<open>
  Claim C4. \<open>getDaysUntilExpiration\<close> returns \<open>Infinity\<close> for a missing date and
  otherwise the ceiling of (midnight(date) - midnight(now)) / one day
  (\<open>getDaysUntilExpiration_absent\<close>, \<open>getDaysUntilExpiration_ceiling\<close>). A date-only
  string is read as midnight UTC, while both midnights are local ones: east of UTC the
  count is the number of calendar days from today to the date, west of UTC it is one
  less (\<open>getDaysUntilExpiration_date_only\<close>, for a zone of constant offset). Evaluated on a device five hours west of
  UTC at 10:00 local time on 15 January 2024, the date 2024-01-15 (today) yields -1
  where the claim says 0; on a device on UTC at the same instant it yields 0.
\<close>

theorem days_until_today_west_of_utc:
  "day_string (localDay winter_bogota (now winter_bogota)) = ''2024-01-15''
   \<and> getDaysUntilExpiration winter_bogota (Some ''2024-01-15'') = Finite (- 1)
   \<and> getDaysUntilExpiration winter_utc (Some ''2024-01-15'') = Finite 0"
  by code_simp

lemma isExpiringSoon_iff:
  "isExpiringSoon e u th \<longleftrightarrow>
     truthy u \<and> js_ge (getDaysUntilExpiration e u) (Finite 0)
     \<and> js_le (getDaysUntilExpiration e u) (Finite th)"
  by (simp add: isExpiringSoon_def Let_def)

text \<open>
  Claim C5. \<open>isExpiringSoon\<close> is true if and only if a date is set and
  0 \<le> \<open>getDaysUntilExpiration\<close> \<le> threshold (\<open>isExpiringSoon_iff\<close>). Because the
  day count is one short west of UTC, a date 8 days out is reported as expiring soon at
  threshold 7 there: on a device five hours west of UTC on 15 January 2024 the date
  2024-01-23 is expiring soon within 7 days, where the claim says it is not; on a device
  on UTC it is not.
\<close>

theorem expiring_soon_eight_days_west_of_utc:
  "day_string (localDay winter_bogota (now winter_bogota) + 8) = ''2024-01-23''
   \<and> isExpiringSoon winter_bogota (Some ''2024-01-23'') 7
   \<and> \<not> isExpiringSoon winter_utc (Some ''2024-01-23'') 7"
  by code_simp

section \<open>Adjusting the expiration of a frozen item\<close>

text \<open>
  In a zone of constant offset east of UTC, and for a day of the month that the month
  six months on has too, the date moves to the same day of that month; with the flag
  false the date is returned unchanged in every zone.
\<close>

lemma adjustExpirationForFrozen_false:
  assumes "Date_parse s = Some (MakeDate D 0)"
  shows "adjustExpirationForFrozen e s False = Inr (day_string D)"
  using Date_parse_nonempty[OF assms]
  by (simp add: adjustExpirationForFrozen_def assms day_string_eq del: map_sum.simps)

lemma MakeDay_carry: "MakeDay y m d = MakeDay (y + m div 12) (m mod 12) d"
  by (simp add: MakeDay_def Let_def)

lemma adjustExpirationForFrozen_true_east:
  assumes c: "\<And>t i. tza e t i = z" and z: "0 \<le> z" "z < msPerDay"
    and v: "1 \<le> m" "m \<le> 12" "1 \<le> d" "d \<le> DaysInMonth y m"
    and p: "Date_parse s = Some (MakeDate (MakeDay y (m - 1) d) 0)"
  shows "adjustExpirationForFrozen e s True = Inr (day_string (MakeDay y (m + 5) d))"
proof -
  define t where "t = MakeDate (MakeDay y (m - 1) d) 0"
  define lt where "lt = LocalTime e t"
  have m: "0 \<le> m - 1" "m - 1 \<le> 11" and d: "1 \<le> d" "d \<le> DaysInMonth y (m - 1 + 1)"
    using v by simp_all
  have lt: "lt = MakeDate (MakeDay y (m - 1) d) z"
    by (simp add: lt_def t_def constant_zone(1)[OF c] MakeDate_def)
  note f = civil_of_MakeDay[OF m d z, folded lt]
  have tw: "TimeWithinDay lt = z"
    using z by (simp add: lt MakeDate_def TimeWithinDay_def msPerDay_def)
  have "setMonth e (Some t) (map_option (\<lambda>m. m + 6) (getMonth e (Some t)))
      = Some (UTC e (MakeDate (MakeDay y (m - 1 + 6) d) z))"
    by (simp add: setMonth_def getMonth_def Let_def lt_def[symmetric] f tw)
  also have "\<dots> = Some (MakeDate (MakeDay y (m + 5) d) 0)"
    by (simp add: constant_zone(2)[OF c] MakeDate_def add.commute)
  finally show ?thesis
    using Date_parse_nonempty[OF p] p
    by (simp add: adjustExpirationForFrozen_def t_def[symmetric] day_string_eq del: map_sum.simps)
qed

lemma frozen_adds_six_months_east_of_utc:
  assumes c: "\<And>t i. tza e t i = z" and z: "0 \<le> z" "z < msPerDay"
    and v: "0 \<le> y" "y \<le> 9999" "1 \<le> m" "m \<le> 12" "1 \<le> d" "d \<le> DaysInMonth y m"
    and fit: "d \<le> DaysInMonth (y + (m + 5) div 12) ((m + 5) mod 12 + 1)"
  shows "adjustExpirationForFrozen e (iso_date y m d) True
      = Inr (iso_date (y + (m + 5) div 12) ((m + 5) mod 12 + 1) d)"
proof -
  have p: "Date_parse (iso_date y m d) = Some (MakeDate (MakeDay y (m - 1) d) 0)"
    by (rule Date_parse_iso_date[OF v])
  have r: "1 \<le> (m + 5) mod 12 + 1" "(m + 5) mod 12 + 1 \<le> 12"
  proof -
    have "0 \<le> (m + 5) mod 12" "(m + 5) mod 12 < 12" by simp_all
    then show "1 \<le> (m + 5) mod 12 + 1" "(m + 5) mod 12 + 1 \<le> 12" by linarith+
  qed
  have "day_string (MakeDay y (m + 5) d)
      = day_string (MakeDay (y + (m + 5) div 12) ((m + 5) mod 12 + 1 - 1) d)"
    using MakeDay_carry[of y "m + 5" d] by simp
  also have "\<dots> = iso_date (y + (m + 5) div 12) ((m + 5) mod 12 + 1) d"
    by (rule day_string_MakeDay[OF r v(5) fit])
  finally show ?thesis
    using adjustExpirationForFrozen_true_east[OF c z v(3-6) p] by simp
qed

lemma frozen_false_unchanged:
  assumes "0 \<le> y" "y \<le> 9999" "1 \<le> m" "m \<le> 12" "1 \<le> d" "d \<le> DaysInMonth y m"
  shows "adjustExpirationForFrozen e (iso_date y m d) False = Inr (iso_date y m d)"
  using adjustExpirationForFrozen_false[OF Date_parse_iso_date[OF assms], of e]
    day_string_MakeDay[OF assms(3-6)] by simp

text \<open>
  Claim C3. With the flag true, \<open>adjustExpirationForFrozen\<close> is to move the date
  exactly 6 calendar months on. \<open>setMonth(getMonth() + 6)\<close> keeps the day of the month
  and counts on from the first of the target month, so a day that the target month does
  not have runs over into the month after: 2024-08-31 becomes 2025-03-03, not a date in
  February 2025. The month is moved in local time, so five hours west of UTC the claim's
  own example 2024-01-01 becomes 2024-07-02; on UTC it becomes 2024-07-01.
\<close>

theorem frozen_month_end_overflow:
  "adjustExpirationForFrozen winter_utc ''2024-08-31'' True = Inr ''2025-03-03''
   \<and> adjustExpirationForFrozen winter_bogota ''2024-01-01'' True = Inr ''2024-07-02''
   \<and> adjustExpirationForFrozen winter_utc ''2024-01-01'' True = Inr ''2024-07-01''"
  by code_simp

end
